theory Spec2Isabelle
  imports Complex_Main
begin

section \<open>Scene construction of the physics engine module\<close>

text \<open>
  The development embeds \<^verbatim>\<open>physicsEngine.js\<close>: the geometric helpers
  (\<^verbatim>\<open>polygonArea\<close>, \<^verbatim>\<open>calculateCentroid\<close>, \<^verbatim>\<open>toConvexHull\<close>,
  \<^verbatim>\<open>decomposeToTriangleFan\<close>, \<^verbatim>\<open>preprocessContour\<close>) and the stages of
  \<^verbatim>\<open>runSimulation\<close> (layout, object loop, constraint loop, boundary walls, the
  per-tick conveyor hook and the returned handle).

  JavaScript numbers are modelled as real numbers, \<^verbatim>\<open>NaN\<close> and the infinities are
  outside the model, and a missing or non-numeric field is \<open>None\<close>. Sums, differences
  and quotients are read exactly. A product that is rounded to an integer right away
  (the scaling of contour and pivot points) is taken from the host, since a double
  product may fall on the other side of a half than the exact one does.
\<close>

subsection \<open>Numbers and points\<close>

record point =
  px :: real
  py :: real

text \<open>\<^verbatim>\<open>Math.round\<close> rounds half up.\<close>

definition jsRound :: "real \<Rightarrow> real" where
  "jsRound v = of_int \<lfloor>v + 1 / 2\<rfloor>"

definition jsFloor :: "real \<Rightarrow> real" where
  "jsFloor v = of_int \<lfloor>v\<rfloor>"

subsection \<open>Geometric helpers\<close>

text \<open>The value of the accumulator \<^verbatim>\<open>area\<close> when the loop of \<^verbatim>\<open>polygonArea\<close> ends.\<close>

definition shoelaceTerm :: "point list \<Rightarrow> nat \<Rightarrow> real" where
  "shoelaceTerm points i =
     (let j = (i + 1) mod length points
      in px (points ! i) * py (points ! j) - px (points ! j) * py (points ! i))"

definition shoelaceSum :: "point list \<Rightarrow> real" where
  "shoelaceSum points = (\<Sum>i\<leftarrow>[0..<length points]. shoelaceTerm points i)"

definition polygonArea :: "point list \<Rightarrow> real" where
  "polygonArea points = \<bar>shoelaceSum points\<bar> / 2"

definition calculateCentroid :: "point list \<Rightarrow> point" where
  "calculateCentroid points =
     (if points = [] then \<lparr>px = 0, py = 0\<rparr>
      else \<lparr>px = (\<Sum>p\<leftarrow>points. px p) / real (length points),
            py = (\<Sum>p\<leftarrow>points. py p) / real (length points)\<rparr>)"

text \<open>
  One triangle \<open>[centroid, points[i], points[(i + 1) % n]]\<close> per index, in index order;
  fewer than three points give no triangle.
\<close>

definition fanTriangle :: "point \<Rightarrow> point list \<Rightarrow> nat \<Rightarrow> point list" where
  "fanTriangle centroid points i =
     [\<lparr>px = px centroid, py = py centroid\<rparr>,
      \<lparr>px = px (points ! i), py = py (points ! i)\<rparr>,
      \<lparr>px = px (points ! ((i + 1) mod length points)),
        py = py (points ! ((i + 1) mod length points))\<rparr>]"

definition decomposeToTriangleFan :: "point list \<Rightarrow> point list list" where
  "decomposeToTriangleFan points =
     (if length points < 3 then []
      else map (fanTriangle (calculateCentroid points) points) [0..<length points])"

text \<open>
  The sum of the areas of the fan's triangles, each measured by \<^verbatim>\<open>polygonArea\<close>.
\<close>

definition fanAreaSum :: "point list \<Rightarrow> real" where
  "fanAreaSum points = (\<Sum>tri\<leftarrow>decomposeToTriangleFan points. polygonArea tri)"

text \<open>The term that the shoelace sum adds for the edge from \<open>a\<close> to \<open>b\<close>.\<close>

definition wedge :: "point \<Rightarrow> point \<Rightarrow> real" where
  "wedge a b = px a * py b - px b * py a"

text \<open>
  \<^verbatim>\<open>toConvexHull\<close> hands the points to the backend's hull routine
  (\<^verbatim>\<open>Matter.Vertices.hull\<close>, a parameter here) and rounds every hull vertex.
\<close>

definition roundPoint :: "point \<Rightarrow> point" where
  "roundPoint v = \<lparr>px = jsRound (px v), py = jsRound (py v)\<rparr>"

definition toConvexHull :: "(point list \<Rightarrow> point list) \<Rightarrow> point list \<Rightarrow> point list" where
  "toConvexHull hullOf points = map roundPoint (hullOf points)"

subsection \<open>Contour sanitizer\<close>

definition distance :: "point \<Rightarrow> point \<Rightarrow> real" where
  "distance prev cur = sqrt ((px cur - px prev)\<^sup>2 + (py cur - py prev)\<^sup>2)"

text \<open>
  The loop of \<^verbatim>\<open>preprocessContour\<close> from index 1 on: \<open>prev\<close> is the last element of
  \<^verbatim>\<open>unique\<close>, and the result lists the points pushed after it.
\<close>

fun dedupFrom :: "point \<Rightarrow> point list \<Rightarrow> point list" where
  "dedupFrom prev [] = []"
| "dedupFrom prev (cur # rest) =
     (if distance prev cur > 1 then cur # dedupFrom cur rest else dedupFrom prev rest)"

text \<open>The array \<^verbatim>\<open>unique\<close> when the loop ends (for a non-empty input).\<close>

definition uniquePoints :: "point list \<Rightarrow> point list" where
  "uniquePoints points = (case points of [] \<Rightarrow> [] | p # rest \<Rightarrow> p # dedupFrom p rest)"

definition preprocessContour :: "point list \<Rightarrow> point list" where
  "preprocessContour points =
     (if length points < 3 then points
      else let unique = uniquePoints points
           in if length unique \<ge> 3 then unique else points)"

subsection \<open>Scene description\<close>

text \<open>
  The fields of an object's \<^verbatim>\<open>parameters\<close> that the engine reads. \<open>None\<close> is a
  missing (or null) field, for which the source substitutes its default.
\<close>

record parameters =
  mass_kg :: "real option"
  restitution :: "real option"
  friction_coefficient :: "real option"
  air_drag :: "real option"
  initial_velocity_px_s :: "real option"
  initial_velocity_m_s :: "real option"
  initial_velocity_y_px_s :: "real option"
  initial_angular_velocity_rad_s :: "real option"
  conveyor_speed :: "real option"

text \<open>
  A scene object. An empty \<open>name\<close> is a missing one (the source tests \<^verbatim>\<open>obj.name || ...\<close>),
  \<open>contour\<close> is empty when the field is not an array, and \<open>is_concave\<close> holds when the
  field is exactly \<^verbatim>\<open>true\<close>. The sprite only selects the body's skin and is left out.
\<close>

record sceneObject =
  name :: string
  role :: string
  contour :: "point list"
  is_concave :: bool
  element_type :: string
  parameters :: parameters

text \<open>
  A constraint relation as the caller passes it. \<open>lengthPx\<close> is the field
  \<^verbatim>\<open>length\<close>; names are strings (the caller passes a placeholder string for an
  anchor that is no object).
\<close>

record constraintSpec =
  bodyName :: string
  pivotName :: string
  pivotPoint :: "point option"
  secondPivotName :: string
  secondPivotPoint :: "point option"
  springType :: string
  constraintType :: string
  stiffness :: "real option"
  damping :: "real option"
  lengthPx :: "real option"
  springLength :: real

subsection \<open>The physics world\<close>

text \<open>
  A body of the backend, with the options the engine sets on it; \<open>None\<close> leaves the
  backend's default. A polygon body keeps the vertices it was made from, a rectangle
  its centre, width and height. Bodies are identified by their handle, the index at
  which they were created in \<open>worldBodies\<close>.
\<close>

datatype shape = Polygon "point list" | Rectangle point real real

record body =
  bodyShape :: shape
  label :: string
  isStatic :: bool
  friction :: "real option"
  frictionAir :: "real option"
  bodyRestitution :: "real option"
  density :: "real option"
  mass :: "real option"
  velocity :: point
  angularVelocity :: real
  renderVisible :: bool

text \<open>A two-point constraint of the backend: each end is a body or a fixed world point.\<close>

record constraint =
  bodyA :: "nat option"
  pointA :: "point option"
  bodyB :: "nat option"
  pointB :: "point option"
  conLength :: "real option"
  conStiffness :: real
  conDamping :: "real option"
  conVisible :: bool

text \<open>
  What a lookup \<^verbatim>\<open>bodiesMap[name]\<close> yields: nothing (\<^verbatim>\<open>undefined\<close>, or another
  falsy value), a body, or a truthy value that is no body, such as a function inherited
  from \<^verbatim>\<open>Object.prototype\<close>.
\<close>

datatype jsValue = NoValue | BodyRef nat | NotABody

text \<open>
  What reading a property of a body object yields: no such property, a falsy value, a
  truthy value that is no body, or the body itself (its \<^verbatim>\<open>parent\<close>).
\<close>

datatype property = Absent | Falsy | Truthy | Self

text \<open>
  A spring launcher's collision listener closes over the slug (\<^verbatim>\<open>reducedBody\<close>), its
  spring constraint and the body found for the second endpoint.
\<close>

record launcher =
  reducedBody :: nat
  springConstraint :: nat
  secondBody :: jsValue

text \<open>
  The state that \<^verbatim>\<open>runSimulation\<close> builds: the bodies and constraints added to
  \<^verbatim>\<open>engine.world\<close> (the triangles of a concave composite are listed with the other
  bodies), the handles removed from it again, the table \<^verbatim>\<open>bodiesMap\<close> in insertion
  order, the table \<^verbatim>\<open>conveyorParams\<close>, the flag \<^verbatim>\<open>hasStatic\<close>, and the registered
  launcher listeners. \<^verbatim>\<open>bodiesMap\<close> is a plain object: \<open>bodiesMap\<close> lists its own
  keys, and \<open>tableProto\<close> is the body that an assignment to the key \<^verbatim>\<open>__proto__\<close> has
  made its prototype, \<open>None\<close> while the prototype is still \<^verbatim>\<open>Object.prototype\<close>.
\<close>

record world =
  worldBodies :: "body list"
  worldConstraints :: "constraint list"
  removedBodies :: "nat list"
  removedConstraints :: "nat list"
  bodiesMap :: "(string \<times> nat) list"
  tableProto :: "nat option"
  conveyorParams :: "(string \<times> real) list"
  hasStatic :: bool
  launchers :: "launcher list"

definition emptyWorld :: world where
  "emptyWorld = \<lparr>worldBodies = [], worldConstraints = [], removedBodies = [],
     removedConstraints = [], bodiesMap = [], tableProto = None, conveyorParams = [],
     hasStatic = False, launchers = []\<rparr>"

text \<open>
  The host as far as construction depends on it: the backend's convex hull routine;
  whether \<^verbatim>\<open>Bodies.fromVertices\<close> returns a body for a vertex list (the source guards
  every use of the result with \<^verbatim>\<open>if (body)\<close>); the product of two doubles; and what
  reading a property of a body object yields.
\<close>

record backend =
  verticesHull :: "point list \<Rightarrow> point list"
  fromVertices :: "point list \<Rightarrow> bool"
  times :: "real \<Rightarrow> real \<Rightarrow> real"
  bodyProperty :: "body \<Rightarrow> string \<Rightarrow> property"

text \<open>Assignment \<^verbatim>\<open>table[key] = value\<close>: an existing key keeps its place.\<close>

fun assign :: "'k \<Rightarrow> 'v \<Rightarrow> ('k \<times> 'v) list \<Rightarrow> ('k \<times> 'v) list" where
  "assign k v [] = [(k, v)]"
| "assign k v ((k', v') # rest) =
     (if k' = k then (k, v) # rest else (k', v') # assign k v rest)"

subsection \<open>Lookups in the name table\<close>

text \<open>
  The properties that every plain object inherits from \<^verbatim>\<open>Object.prototype\<close>, apart
  from the accessor \<^verbatim>\<open>__proto__\<close>. All of them are functions.
\<close>

definition objectPrototypeKeys :: "string list" where
  "objectPrototypeKeys =
     [''constructor'', ''hasOwnProperty'', ''isPrototypeOf'', ''propertyIsEnumerable'',
      ''toLocaleString'', ''toString'', ''valueOf'', ''__defineGetter__'',
      ''__defineSetter__'', ''__lookupGetter__'', ''__lookupSetter__'']"

definition fromObjectPrototype :: "string \<Rightarrow> jsValue" where
  "fromObjectPrototype key = (if key \<in> set objectPrototypeKeys then NotABody else NoValue)"

text \<open>
  The value of \<^verbatim>\<open>bodiesMap[key]\<close>. An own key gives its body. The key
  \<^verbatim>\<open>__proto__\<close> gives the prototype: the body that was assigned to it, or
  \<^verbatim>\<open>Object.prototype\<close>. Any other key is looked up along the prototype chain, first in
  the body that has become the prototype, if any, then in \<^verbatim>\<open>Object.prototype\<close>.
\<close>

definition tableGet :: "backend \<Rightarrow> world \<Rightarrow> string \<Rightarrow> jsValue" where
  "tableGet be w key =
     (case map_of (bodiesMap w) key of
        Some h \<Rightarrow> BodyRef h
      | None \<Rightarrow>
          (case tableProto w of
             None \<Rightarrow> (if key = ''__proto__'' then NotABody else fromObjectPrototype key)
           | Some b \<Rightarrow>
               if key = ''__proto__'' then BodyRef b
               else (case bodyProperty be (worldBodies w ! b) key of
                       Absent \<Rightarrow> fromObjectPrototype key
                     | Falsy \<Rightarrow> NoValue
                     | Truthy \<Rightarrow> NotABody
                     | Self \<Rightarrow> BodyRef b)))"


subsection \<open>Strings\<close>

fun digitsOf :: "nat \<Rightarrow> nat \<Rightarrow> string" where
  "digitsOf 0 n = []"
| "digitsOf (Suc fuel) n =
     (if n < 10 then [char_of (48 + n)]
      else digitsOf fuel (n div 10) @ [char_of (48 + n mod 10)])"

text \<open>The decimal numeral of a count; a number \<open>n\<close> has at most \<open>n + 1\<close> digits.\<close>

definition showNat :: "nat \<Rightarrow> string" where
  "showNat n = digitsOf (Suc n) n"

definition lowerChar :: "char \<Rightarrow> char" where
  "lowerChar c =
     (let n = (of_char c :: nat) in if 65 \<le> n \<and> n \<le> 90 then char_of (n + 32) else c)"

definition toLowerCase :: "string \<Rightarrow> string" where
  "toLowerCase s = map lowerChar s"

subsection \<open>Layout\<close>

text \<open>
  A rectangle as \<^verbatim>\<open>getBoundingClientRect\<close> gives it. The arguments of
  \<^verbatim>\<open>runSimulation\<close>: \<open>container\<close> is the rectangle of the mount element, \<open>None\<close> when
  no element is passed.
\<close>

record rect =
  left :: real
  top :: real
  width :: real
  height :: real

record simArgs =
  container :: "rect option"
  objects :: "sceneObject list"
  constraints :: "constraintSpec list"
  imageRect :: "rect option"
  naturalW :: real
  naturalH :: real

definition containerRect :: "simArgs \<Rightarrow> rect" where
  "containerRect args =
     (case container args of
        Some r \<Rightarrow> r
      | None \<Rightarrow> \<lparr>left = 0, top = 0, width = 640, height = 360\<rparr>)"

definition imgRect :: "simArgs \<Rightarrow> rect" where
  "imgRect args = (case imageRect args of Some r \<Rightarrow> r | None \<Rightarrow> containerRect args)"

text \<open>\<^verbatim>\<open>v || d\<close> on numbers: zero is falsy.\<close>

definition orElse :: "real \<Rightarrow> real \<Rightarrow> real" where
  "orElse v d = (if v = 0 then d else v)"

definition canvasWidth :: "simArgs \<Rightarrow> real" where
  "canvasWidth args = max 1 (jsFloor (orElse (width (imgRect args)) 640))"

definition canvasHeight :: "simArgs \<Rightarrow> real" where
  "canvasHeight args = max 1 (jsFloor (orElse (height (imgRect args)) 360))"

definition scaleX :: "simArgs \<Rightarrow> real" where
  "scaleX args = (if naturalW args \<noteq> 0 then canvasWidth args / naturalW args else 1)"

definition scaleY :: "simArgs \<Rightarrow> real" where
  "scaleY args = (if naturalH args \<noteq> 0 then canvasHeight args / naturalH args else 1)"

subsection \<open>Bodies\<close>

text \<open>\<^verbatim>\<open>Number(v ?? d)\<close> on a numeric field.\<close>

definition numOr :: "real option \<Rightarrow> real \<Rightarrow> real" where
  "numOr v d = (case v of None \<Rightarrow> d | Some x \<Rightarrow> x)"

text \<open>\<^verbatim>\<open>v || d\<close> on a numeric field: a missing field and zero both give the default.\<close>

definition optOr :: "real option \<Rightarrow> real \<Rightarrow> real" where
  "optOr v d = (case v of None \<Rightarrow> d | Some x \<Rightarrow> orElse x d)"

text \<open>
  A body as the backend creates it before any option is applied. The backend labels a
  body made from vertices \<^verbatim>\<open>Body\<close> and a rectangle \<^verbatim>\<open>Rectangle Body\<close>; neither is a
  label that the engine tests.
\<close>

definition newBody :: "shape \<Rightarrow> body" where
  "newBody s = \<lparr>bodyShape = s, label = ''Body'', isStatic = False, friction = None,
     frictionAir = None, bodyRestitution = None, density = None, mass = None,
     velocity = \<lparr>px = 0, py = 0\<rparr>, angularVelocity = 0, renderVisible = True\<rparr>"

definition rectangleBody :: "point \<Rightarrow> real \<Rightarrow> real \<Rightarrow> body" where
  "rectangleBody centre w h = (newBody (Rectangle centre w h))\<lparr>label := ''Rectangle Body''\<rparr>"

definition polygonBody :: "point list \<Rightarrow> bool \<Rightarrow> real \<Rightarrow> real \<Rightarrow> real \<Rightarrow> body" where
  "polygonBody verts isStat fric air rest =
     (newBody (Polygon verts))\<lparr>isStatic := isStat, friction := Some fric,
        frictionAir := Some air, bodyRestitution := Some rest\<rparr>"

definition triangleBody :: "point list \<Rightarrow> real \<Rightarrow> real \<Rightarrow> body" where
  "triangleBody tri fric rest =
     (newBody (Polygon tri))\<lparr>isStatic := True, friction := Some fric,
        bodyRestitution := Some rest\<rparr>"

definition applyPhysicsProperties :: "body \<Rightarrow> sceneObject \<Rightarrow> point list \<Rightarrow> bool \<Rightarrow> body" where
  "applyPhysicsProperties b obj processed isStat =
     (let area = polygonArea processed;
          massKg = numOr (mass_kg (parameters obj)) 0;
          b1 = (if massKg > 0 \<and> area > 1
                then b\<lparr>density := Some (max (1 / 10000) (massKg / area))\<rparr> else b);
          vx = (case initial_velocity_px_s (parameters obj) of
                  Some v \<Rightarrow> v
                | None \<Rightarrow> numOr (initial_velocity_m_s (parameters obj)) 0);
          vy = numOr (initial_velocity_y_px_s (parameters obj)) 0;
          b2 = (if isStat then b1 else if vx = 0 \<and> vy = 0 then b1
                else b1\<lparr>velocity := \<lparr>px = vx, py = vy\<rparr>\<rparr>);
          w0 = numOr (initial_angular_velocity_rad_s (parameters obj)) 0
      in if isStat then b2 else if w0 = 0 then b2 else b2\<lparr>angularVelocity := w0\<rparr>)"

text \<open>
  \<^verbatim>\<open>createConvexHullBody\<close>: the body is added to the world; nothing is written to
  \<^verbatim>\<open>bodiesMap\<close>.
\<close>

definition createConvexHullBody ::
  "backend \<Rightarrow> point list \<Rightarrow> sceneObject \<Rightarrow> bool \<Rightarrow> real \<Rightarrow> real \<Rightarrow> real \<Rightarrow> world \<Rightarrow> world" where
  "createConvexHullBody be processed obj isStat fric air rest w =
     (let hullPoints = toConvexHull (verticesHull be) processed
      in if fromVertices be hullPoints
         then w\<lparr>worldBodies := worldBodies w @
                  [applyPhysicsProperties (polygonBody hullPoints isStat fric air rest)
                     obj processed isStat]\<rparr>
         else w)"

definition isConveyorObject :: "sceneObject \<Rightarrow> bool" where
  "isConveyorObject obj =
     (conveyor_speed (parameters obj) \<noteq> None \<or>
      toLowerCase (element_type obj) = ''conveyor_belt'')"

text \<open>
  The assignment \<^verbatim>\<open>bodiesMap[bodyName] = body\<close>: the key \<^verbatim>\<open>__proto__\<close> replaces the
  table's prototype and creates no own key.
\<close>

definition register :: "string \<Rightarrow> nat \<Rightarrow> world \<Rightarrow> world" where
  "register key handle w =
     (if key = ''__proto__'' then w\<lparr>tableProto := Some handle\<rparr>
      else w\<lparr>bodiesMap := assign key handle (bodiesMap w)\<rparr>)"

text \<open>Case A of the object loop: a convex polygon, registered under its name.\<close>

definition addConvexBody ::
  "backend \<Rightarrow> point list \<Rightarrow> sceneObject \<Rightarrow> bool \<Rightarrow> real \<Rightarrow> real \<Rightarrow> real \<Rightarrow> world \<Rightarrow> world" where
  "addConvexBody be processed obj isStat fric air rest w =
     (if fromVertices be processed
      then let b = applyPhysicsProperties (polygonBody processed isStat fric air rest)
                     obj processed isStat;
               handle = length (worldBodies w);
               bodyName = (if name obj \<noteq> [] then name obj
                           else ''body-'' @ showNat (length (bodiesMap w)));
               tagged = (isStat \<and> isConveyorObject obj)
           in (register bodyName handle w)
                \<lparr>worldBodies :=
                  worldBodies w @ [if tagged then b\<lparr>label := ''conveyor''\<rparr> else b],
                conveyorParams :=
                  (if tagged
                   then assign bodyName (numOr (conveyor_speed (parameters obj)) 0)
                          (conveyorParams w)
                   else conveyorParams w)\<rparr>
      else w)"

text \<open>
  Case B: a static concave object becomes one static body per fan triangle; an empty fan
  falls back to the hull body.
\<close>

definition addTriangleFan ::
  "backend \<Rightarrow> point list \<Rightarrow> sceneObject \<Rightarrow> bool \<Rightarrow> real \<Rightarrow> real \<Rightarrow> real \<Rightarrow> world \<Rightarrow> world" where
  "addTriangleFan be processed obj isStat fric air rest w =
     (let triangles = decomposeToTriangleFan processed
      in if triangles = []
         then createConvexHullBody be processed obj isStat fric air rest w
         else w\<lparr>worldBodies := worldBodies w @
                  map (\<lambda>tri. triangleBody tri fric rest)
                    (filter (fromVertices be) triangles)\<rparr>)"

text \<open>\<^verbatim>\<open>Math.round(p.x * sx)\<close>, with the host's product.\<close>

definition scalePoint :: "backend \<Rightarrow> real \<Rightarrow> real \<Rightarrow> point \<Rightarrow> point" where
  "scalePoint be sx sy p =
     \<lparr>px = jsRound (times be (px p) sx), py = jsRound (times be (py p) sy)\<rparr>"

text \<open>One round of \<^verbatim>\<open>objects.forEach\<close>.\<close>

definition addObject :: "backend \<Rightarrow> real \<Rightarrow> real \<Rightarrow> sceneObject \<Rightarrow> world \<Rightarrow> world" where
  "addObject be sx sy obj w =
     (if role obj = ''constraint'' then w
      else if length (contour obj) < 3 then w
      else let processed = preprocessContour (map (scalePoint be sx sy) (contour obj))
           in if length processed < 3 then w
              else let isStat = (role obj = ''static'');
                       w1 = (if isStat then w\<lparr>hasStatic := True\<rparr> else w);
                       rest = numOr (restitution (parameters obj)) 0;
                       fric = numOr (friction_coefficient (parameters obj)) (2 / 10);
                       air = numOr (air_drag (parameters obj)) 0
                   in if is_concave obj
                      then if isStat
                           then addTriangleFan be processed obj isStat fric air rest w1
                           else createConvexHullBody be processed obj isStat fric air rest w1
                      else addConvexBody be processed obj isStat fric air rest w1)"

definition buildBodies :: "backend \<Rightarrow> real \<Rightarrow> real \<Rightarrow> sceneObject list \<Rightarrow> world \<Rightarrow> world" where
  "buildBodies be sx sy objs w = fold (addObject be sx sy) objs w"

subsection \<open>Constraints\<close>

datatype jsError = ReferenceError string | TypeError string

text \<open>A pivot point in canvas coordinates: \<^verbatim>\<open>Math.round((p?.x || 0) * sx)\<close>.\<close>

definition mapPivot :: "backend \<Rightarrow> real \<Rightarrow> real \<Rightarrow> point option \<Rightarrow> point" where
  "mapPivot be sx sy p =
     \<lparr>px = jsRound (times be (case p of None \<Rightarrow> 0 | Some q \<Rightarrow> px q) sx),
      py = jsRound (times be (case p of None \<Rightarrow> 0 | Some q \<Rightarrow> py q) sy)\<rparr>"

text \<open>An endpoint's fixed point: \<^verbatim>\<open>body ? undefined : point\<close>.\<close>

definition anchorUnless :: "jsValue \<Rightarrow> point \<Rightarrow> point option" where
  "anchorUnless b p = (case b of NoValue \<Rightarrow> Some p | _ \<Rightarrow> None)"

text \<open>
  An end of a constraint as \<^verbatim>\<open>Constraint.create\<close> reads it: a falsy value is no
  body; of a truthy value the backend reads \<^verbatim>\<open>position.x\<close>, and throws a type error
  when the value is no body and so has no position.
\<close>

definition endBody :: "jsValue \<Rightarrow> jsError + nat option" where
  "endBody v =
     (case v of
        NoValue \<Rightarrow> Inr None
      | BodyRef h \<Rightarrow> Inr (Some h)
      | NotABody \<Rightarrow> Inl (TypeError ''position''))"

text \<open>
  \<^verbatim>\<open>Constraint.create\<close> with the options the engine passes; the end \<^verbatim>\<open>bodyA\<close> is read
  first. The render type and the colours of a constraint are left out.
\<close>

definition constraintCreate ::
  "jsValue \<Rightarrow> point option \<Rightarrow> jsValue \<Rightarrow> point option \<Rightarrow> real option \<Rightarrow> real \<Rightarrow>
   real option \<Rightarrow> bool \<Rightarrow> jsError + constraint" where
  "constraintCreate a pa b pb len stiff damp vis =
     (case endBody a of
        Inl e \<Rightarrow> Inl e
      | Inr ea \<Rightarrow>
          (case endBody b of
             Inl e \<Rightarrow> Inl e
           | Inr eb \<Rightarrow>
               Inr \<lparr>bodyA = ea, pointA = pa, bodyB = eb, pointB = pb, conLength = len,
                    conStiffness = stiff, conDamping = damp, conVisible = vis\<rparr>))"

definition REDUCED_BODY_SIZE :: real where
  "REDUCED_BODY_SIZE = 20"

text \<open>Spring system, type \<^verbatim>\<open>constraint\<close>: one elastic constraint between the two ends.\<close>

definition addSpringConstraint ::
  "backend \<Rightarrow> real \<Rightarrow> real \<Rightarrow> constraintSpec \<Rightarrow> world \<Rightarrow> jsError + world" where
  "addSpringConstraint be sx sy c w =
     (let firstPoint = mapPivot be sx sy (pivotPoint c);
          secondPoint = mapPivot be sx sy (secondPivotPoint c);
          firstBody = tableGet be w (pivotName c);
          second = tableGet be w (secondPivotName c)
      in case constraintCreate firstBody (anchorUnless firstBody firstPoint)
                second (anchorUnless second secondPoint)
                (Some (springLength c * max sx sy))
                (optOr (stiffness c) 100 / 1000)
                (Some (optOr (damping c) (1 / 10))) True of
           Inl e \<Rightarrow> Inl e
         | Inr spring \<Rightarrow> Inr (w\<lparr>worldConstraints := worldConstraints w @ [spring]\<rparr>))"

text \<open>
  Spring system, type \<^verbatim>\<open>launcher\<close>: the slug, the spring from the first end to the
  slug, and the collision listener. The slug and the spring are added to the world
  together, after the spring has been created.
\<close>

definition slugBody :: "point \<Rightarrow> point \<Rightarrow> body" where
  "slugBody firstPoint secondPoint =
     (rectangleBody
        \<lparr>px = px firstPoint + (px secondPoint - px firstPoint) * (9 / 10),
         py = py firstPoint + (py secondPoint - py firstPoint) * (9 / 10)\<rparr>
        REDUCED_BODY_SIZE REDUCED_BODY_SIZE)
      \<lparr>label := ''spring_launcher_reduced'', friction := Some 0, frictionAir := Some 0,
       bodyRestitution := Some (1 / 10), mass := Some (1 / 2)\<rparr>"

definition addSpringLauncher ::
  "backend \<Rightarrow> real \<Rightarrow> real \<Rightarrow> constraintSpec \<Rightarrow> world \<Rightarrow> jsError + world" where
  "addSpringLauncher be sx sy c w =
     (let firstPoint = mapPivot be sx sy (pivotPoint c);
          secondPoint = mapPivot be sx sy (secondPivotPoint c);
          firstBody = tableGet be w (pivotName c);
          second = tableGet be w (secondPivotName c);
          slug = length (worldBodies w);
          spring = length (worldConstraints w)
      in case constraintCreate firstBody (anchorUnless firstBody firstPoint)
                (BodyRef slug) None
                (Some (springLength c * max sx sy - REDUCED_BODY_SIZE))
                (optOr (stiffness c) 200 / 1000)
                (Some (optOr (damping c) (5 / 100))) False of
           Inl e \<Rightarrow> Inl e
         | Inr springCon \<Rightarrow>
             Inr (w\<lparr>worldBodies := worldBodies w @ [slugBody firstPoint secondPoint],
                    worldConstraints := worldConstraints w @ [springCon],
                    launchers := launchers w @
                      [\<lparr>reducedBody = slug, springConstraint = spring,
                        secondBody = second\<rparr>]\<rparr>))"

text \<open>
  The pendulum path: a subject that is missing skips the constraint; the pivot is a
  body or a world point.
\<close>

definition pendulumStiffness :: "constraintSpec \<Rightarrow> real" where
  "pendulumStiffness c =
     (if constraintType c = ''spring'' then numOr (stiffness c) (3 / 10)
      else if constraintType c = ''rope'' then numOr (stiffness c) (9 / 10)
      else numOr (stiffness c) 1)"

definition pendulumLength :: "real \<Rightarrow> real \<Rightarrow> constraintSpec \<Rightarrow> real option" where
  "pendulumLength sx sy c =
     (case lengthPx c of
        None \<Rightarrow> None
      | Some l \<Rightarrow> if l = 0 then None else Some (l * max sx sy))"

definition addPendulum ::
  "backend \<Rightarrow> real \<Rightarrow> real \<Rightarrow> constraintSpec \<Rightarrow> world \<Rightarrow> jsError + world" where
  "addPendulum be sx sy c w =
     (case tableGet be w (bodyName c) of
        NoValue \<Rightarrow> Inr w
      | subject \<Rightarrow>
          (let pivotPointScaled = mapPivot be sx sy (pivotPoint c);
               pivotBody = tableGet be w (pivotName c)
           in case constraintCreate pivotBody (anchorUnless pivotBody pivotPointScaled)
                     subject None (pendulumLength sx sy c) (pendulumStiffness c) None True of
                Inl e \<Rightarrow> Inl e
              | Inr con \<Rightarrow> Inr (w\<lparr>worldConstraints := worldConstraints w @ [con]\<rparr>)))"

text \<open>The test \<^verbatim>\<open>isSpring && c.secondPivotPoint\<close>.\<close>

definition isSpringSystem :: "constraintSpec \<Rightarrow> bool" where
  "isSpringSystem c =
     ((springType c = ''constraint'' \<or> springType c = ''launcher'')
      \<and> secondPivotPoint c \<noteq> None)"

text \<open>One round of \<^verbatim>\<open>constraints.forEach\<close>.\<close>

definition addConstraint ::
  "backend \<Rightarrow> real \<Rightarrow> real \<Rightarrow> constraintSpec \<Rightarrow> world \<Rightarrow> jsError + world" where
  "addConstraint be sx sy c w =
     (if isSpringSystem c
      then if springType c = ''constraint'' then addSpringConstraint be sx sy c w
           else addSpringLauncher be sx sy c w
      else addPendulum be sx sy c w)"

text \<open>The constraint loop: an exception ends it, and nothing catches it.\<close>

fun buildConstraints ::
  "backend \<Rightarrow> real \<Rightarrow> real \<Rightarrow> constraintSpec list \<Rightarrow> world \<Rightarrow> jsError + world" where
  "buildConstraints be sx sy [] w = Inr w"
| "buildConstraints be sx sy (c # cs) w =
     (case addConstraint be sx sy c w of
        Inl e \<Rightarrow> Inl e
      | Inr w' \<Rightarrow> buildConstraints be sx sy cs w')"

subsection \<open>Boundary walls\<close>

text \<open>
  \<^verbatim>\<open>Math.max(10, Math.floor(Math.min(width, height) * 0.02))\<close>. The sides of the
  canvas are whole numbers, and for a whole number the double product with 0.02 has the
  floor of the exact product, so the product is read exactly here.
\<close>

definition wallThickness :: "real \<Rightarrow> real \<Rightarrow> real" where
  "wallThickness w h = max 10 (jsFloor (min w h * (2 / 100)))"

definition wall :: "real \<Rightarrow> real \<Rightarrow> real \<Rightarrow> real \<Rightarrow> body" where
  "wall x y w h =
     (rectangleBody \<lparr>px = x, py = y\<rparr> w h)\<lparr>isStatic := True, renderVisible := False\<rparr>"

definition boundaryWalls :: "real \<Rightarrow> real \<Rightarrow> body list" where
  "boundaryWalls w h =
     (let t = wallThickness w h
      in [wall (w / 2) (- t / 2) w t,
          wall (w / 2) (h + t / 2) w t,
          wall (- t / 2) (h / 2) t h,
          wall (w + t / 2) (h / 2) t h])"

definition addWalls :: "real \<Rightarrow> real \<Rightarrow> world \<Rightarrow> world" where
  "addWalls w h wd =
     (if hasStatic wd then wd
      else wd\<lparr>worldBodies := worldBodies wd @ boundaryWalls w h\<rparr>)"

subsection \<open>The per-tick conveyor hook\<close>

text \<open>
  A contact pair names its two bodies by handle; \<open>None\<close>, or a handle that names no
  body, is an undefined body (the source reads \<^verbatim>\<open>bodyA?.label\<close>).
\<close>

definition getBody :: "world \<Rightarrow> nat option \<Rightarrow> body option" where
  "getBody w h =
     (case h of
        None \<Rightarrow> None
      | Some i \<Rightarrow> if i < length (worldBodies w) then Some (worldBodies w ! i) else None)"

definition hasLabel :: "world \<Rightarrow> nat option \<Rightarrow> string \<Rightarrow> bool" where
  "hasLabel w h l = (case getBody w h of None \<Rightarrow> False | Some b \<Rightarrow> label b = l)"

text \<open>
  The speed lookup: the first own entry of \<^verbatim>\<open>bodiesMap\<close> whose body is the conveyor
  gives the name under which \<^verbatim>\<open>conveyorParams\<close> is read; the speed stays 0 when either
  lookup finds nothing.
\<close>

definition conveyorSpeedOf :: "world \<Rightarrow> nat \<Rightarrow> real" where
  "conveyorSpeedOf w conveyorBody =
     (case find (\<lambda>entry. snd entry = conveyorBody) (bodiesMap w) of
        None \<Rightarrow> 0
      | Some entry \<Rightarrow>
          (case map_of (conveyorParams w) (fst entry) of
             None \<Rightarrow> 0
           | Some speed \<Rightarrow> orElse speed 0))"

text \<open>
  The first half of the loop body of \<^verbatim>\<open>onBeforeUpdate\<close>: the conveyor body and the
  other body of a pair on which the hook acts, \<open>None\<close> where the loop continues with the
  next pair.
\<close>

definition hookTarget :: "world \<Rightarrow> nat option \<times> nat option \<Rightarrow> (nat \<times> nat) option" where
  "hookTarget w pair =
     (let aIsConv = hasLabel w (fst pair) ''conveyor'';
          bIsConv = hasLabel w (snd pair) ''conveyor''
      in if \<not> aIsConv \<and> \<not> bIsConv then None
         else let conveyorBody = (if aIsConv then fst pair else snd pair);
                  otherBody = (if aIsConv then snd pair else fst pair)
              in case (conveyorBody, otherBody, getBody w otherBody) of
                   (Some cb, Some ob, Some other) \<Rightarrow>
                     if isStatic other then None else Some (cb, ob)
                 | _ \<Rightarrow> None)"

text \<open>
  \<^verbatim>\<open>Body.setVelocity(otherBody, { x: speed, y: otherBody.velocity.y })\<close> and
  \<^verbatim>\<open>Body.setAngularVelocity(otherBody, 0)\<close>; the setters store what they are given.
\<close>

definition setMotion :: "real \<Rightarrow> body \<Rightarrow> body" where
  "setMotion speed other =
     other\<lparr>velocity := \<lparr>px = speed, py = py (velocity other)\<rparr>, angularVelocity := 0\<rparr>"

text \<open>The loop body of \<^verbatim>\<open>onBeforeUpdate\<close> for one pair.\<close>

definition conveyorStep :: "nat option \<times> nat option \<Rightarrow> world \<Rightarrow> world" where
  "conveyorStep pair w =
     (case hookTarget w pair of
        None \<Rightarrow> w
      | Some (cb, ob) \<Rightarrow>
          w\<lparr>worldBodies :=
              (worldBodies w)[ob := setMotion (conveyorSpeedOf w cb) (worldBodies w ! ob)]\<rparr>)"

definition onBeforeUpdate :: "(nat option \<times> nat option) list \<Rightarrow> world \<Rightarrow> world" where
  "onBeforeUpdate pairs w = fold conveyorStep pairs w"

subsection \<open>The spring launcher's collision listener\<close>

text \<open>
  The identifiers that the timer callback of a launcher can see: the module's bindings,
  the parameters and locals of \<^verbatim>\<open>runSimulation\<close> declared before the callback, the
  locals of the enclosing callbacks, and the globals of the host that the file uses.
\<close>

definition callbackScope :: "string list" where
  "callbackScope =
     [''Matter'', ''polygonArea'', ''calculateCentroid'', ''toConvexHull'',
      ''decomposeToTriangleFan'', ''triangleCentroid'', ''preprocessContour'',
      ''runSimulation'', ''createConvexHullBody'', ''applyPhysicsProperties'',
      ''container'', ''objects'', ''constraints'', ''imageRect'', ''naturalSize'',
      ''containerRect'', ''imgRect'', ''width'', ''height'', ''offX'', ''offY'', ''sx'', ''sy'',
      ''Engine'', ''Render'', ''Runner'', ''Composite'', ''Bodies'', ''Vertices'', ''Body'',
      ''Events'', ''engine'', ''render'', ''hasStatic'', ''bodiesMap'', ''conveyorParams'',
      ''Constraint'', ''REDUCED_BODY_SIZE'', ''runner'', ''onBeforeUpdate'',
      ''constraintCount'', ''c'', ''idx'', ''isSpring'', ''firstPoint'', ''secondPoint'',
      ''firstBody'', ''secondBody'', ''reducedBody'', ''springConstraint'', ''event'',
      ''pair'', ''console'', ''document'', ''Math'', ''Number'', ''String'', ''Object'',
      ''Array'', ''Map'', ''NaN'', ''isNaN'', ''setTimeout'', ''undefined'']"

definition resolveIdentifier :: "string \<Rightarrow> jsError + unit" where
  "resolveIdentifier ident =
     (if ident \<in> set callbackScope then Inr () else Inl (ReferenceError ident))"

definition labelOf :: "world \<Rightarrow> nat \<Rightarrow> string" where
  "labelOf w h = (case getBody w (Some h) of None \<Rightarrow> [] | Some b \<Rightarrow> label b)"

text \<open>
  The test of the \<^verbatim>\<open>collisionStart\<close> listener on one pair of the event:
  \<^verbatim>\<open>secondBody && (pair.bodyA === secondBody || pair.bodyB === secondBody)\<close>; a value
  that is no body is identical to no body of a pair.
\<close>

definition launcherHit :: "world \<Rightarrow> launcher \<Rightarrow> nat \<times> nat \<Rightarrow> bool" where
  "launcherHit w l pair =
     ((labelOf w (fst pair) = ''spring_launcher_reduced''
         \<or> labelOf w (snd pair) = ''spring_launcher_reduced'')
      \<and> (case secondBody l of
           BodyRef sb \<Rightarrow> fst pair = sb \<or> snd pair = sb
         | _ \<Rightarrow> False))"

text \<open>A pending \<^verbatim>\<open>setTimeout\<close>: the delay in milliseconds and the launcher it closes over.\<close>

datatype timer = Timer nat launcher

text \<open>
  A \<^verbatim>\<open>collisionStart\<close> event: every listener, in registration order, schedules one
  timer per matching pair. Nothing is removed while the event is handled.
\<close>

definition onCollisionStart :: "world \<Rightarrow> (nat \<times> nat) list \<Rightarrow> timer list" where
  "onCollisionStart w pairs =
     concat (map (\<lambda>l. map (\<lambda>_. Timer 100 l) (filter (launcherHit w l) pairs)) (launchers w))"

text \<open>
  The timer's callback: \<^verbatim>\<open>World.remove(engine.world, reducedBody)\<close> and then
  \<^verbatim>\<open>World.remove(engine.world, springConstraint)\<close>. The callee \<^verbatim>\<open>World\<close> is
  resolved first.
\<close>

definition timerCallback :: "timer \<Rightarrow> world \<Rightarrow> jsError + world" where
  "timerCallback t w =
     (case t of Timer _ l \<Rightarrow>
        (case resolveIdentifier ''World'' of
           Inl e \<Rightarrow> Inl e
         | Inr _ \<Rightarrow>
             Inr (w\<lparr>removedBodies := removedBodies w @ [reducedBody l],
                    removedConstraints := removedConstraints w @ [springConstraint l]\<rparr>)))"

text \<open>A callback that throws leaves the world as it was.\<close>

definition fireTimer :: "timer \<Rightarrow> world \<Rightarrow> world" where
  "fireTimer t w = (case timerCallback t w of Inl _ \<Rightarrow> w | Inr w' \<Rightarrow> w')"

definition bodyInWorld :: "world \<Rightarrow> nat \<Rightarrow> bool" where
  "bodyInWorld w h = (h < length (worldBodies w) \<and> h \<notin> set (removedBodies w))"

definition constraintInWorld :: "world \<Rightarrow> nat \<Rightarrow> bool" where
  "constraintInWorld w k = (k < length (worldConstraints w) \<and> k \<notin> set (removedConstraints w))"

subsection \<open>The entry point\<close>

text \<open>
  The returned handle. Of the summary line only its two numbers are modelled (the fixed
  words around them are not ASCII): the object count, and the constraint count when it
  is positive.
\<close>

record simulationHandle =
  summaryObjects :: nat
  summaryConstraints :: "nat option"
  scene :: world

text \<open>
  The world when \<^verbatim>\<open>runSimulation\<close> starts the runner: bodies, constraints, walls. An
  exception of the constraint loop leaves \<^verbatim>\<open>runSimulation\<close> before the walls are made.
\<close>

definition buildScene :: "backend \<Rightarrow> simArgs \<Rightarrow> jsError + world" where
  "buildScene be args =
     (let sx = scaleX args;
          sy = scaleY args;
          built = buildBodies be sx sy (objects args) emptyWorld
      in case buildConstraints be sx sy (constraints args) built of
           Inl e \<Rightarrow> Inl e
         | Inr constrained \<Rightarrow>
             Inr (addWalls (canvasWidth args) (canvasHeight args) constrained))"

text \<open>
  \<^verbatim>\<open>runSimulation\<close> has no error result of its own: it returns the handle, unless an
  exception of the constraint loop passes through it.
\<close>

definition runSimulation :: "backend \<Rightarrow> simArgs \<Rightarrow> jsError + simulationHandle" where
  "runSimulation be args =
     (case buildScene be args of
        Inl e \<Rightarrow> Inl e
      | Inr built \<Rightarrow>
          (let constraintCount = length (constraints args)
           in Inr \<lparr>summaryObjects = length (objects args),
                   summaryConstraints =
                     (if constraintCount > 0 then Some constraintCount else None),
                   scene = built\<rparr>))"

subsection \<open>A stand-in for the backend\<close>

definition cross3 :: "point \<Rightarrow> point \<Rightarrow> point \<Rightarrow> real" where
  "cross3 a b c = (px b - px a) * (py c - py a) - (py b - py a) * (px c - px a)"

definition pointLeq :: "point \<Rightarrow> point \<Rightarrow> bool" where
  "pointLeq a b = (px a < px b \<or> (px a = px b \<and> py a \<le> py b))"

fun insertPoint :: "point \<Rightarrow> point list \<Rightarrow> point list" where
  "insertPoint v [] = [v]"
| "insertPoint v (u # rest) = (if pointLeq v u then v # u # rest else u # insertPoint v rest)"

definition sortPoints :: "point list \<Rightarrow> point list" where
  "sortPoints vs = foldr insertPoint vs []"

text \<open>The scan's stack, top first: points that make no left turn with the new one go.\<close>

fun popWhile :: "point list \<Rightarrow> point \<Rightarrow> point list" where
  "popWhile (b # a # rest) v =
     (if cross3 a b v \<le> 0 then popWhile (a # rest) v else b # a # rest)"
| "popWhile st v = st"

definition chainScan :: "point list \<Rightarrow> point list" where
  "chainScan vs = fold (\<lambda>v st. v # popWhile st v) vs []"

text \<open>
  Modelled from the spec: the backend's convex hull routine
  (\<^verbatim>\<open>Matter.Vertices.hull\<close>), which is no part of the repository. The glossary
  defines the convex hull as the smallest convex polygon containing a point set; this
  stand-in computes it by the monotone chain scan over the points sorted by \<open>x\<close>, then
  \<open>y\<close>: the upper chain without its last point, followed by the lower chain without
  its last point.
\<close>

definition chainHull :: "point list \<Rightarrow> point list" where
  "chainHull vs =
     (let sorted = sortPoints vs
      in rev (tl (chainScan (rev sorted))) @ rev (tl (chainScan sorted)))"

text \<open>A backend that returns a body for every vertex list.\<close>

definition always :: "point list \<Rightarrow> bool" where
  "always verts = True"

text \<open>
  Properties of the stand-in's body objects: a body is its own \<^verbatim>\<open>parent\<close>, and a few
  of its fields hold objects or non-empty strings.
\<close>

definition standInProperty :: "body \<Rightarrow> string \<Rightarrow> property" where
  "standInProperty b key =
     (if key = ''parent'' then Self
      else if key \<in> set [''position'', ''velocity'', ''vertices'', ''parts'', ''bounds'',
                          ''render'', ''label'', ''type'']
      then Truthy else Absent)"

definition standInBackend :: backend where
  "standInBackend = \<lparr>verticesHull = chainHull, fromVertices = always, times = (*),
     bodyProperty = standInProperty\<rparr>"

subsection \<open>Containment in a convex polygon\<close>

text \<open>
  A point lies on or inside a convex polygon, given by its vertices in order, when it is
  on the same side of every edge (or on the edge's line). A polygon of one vertex is
  that point, one of two vertices is the segment between them.
\<close>

definition edgeSides :: "point list \<Rightarrow> point \<Rightarrow> real list" where
  "edgeSides poly p =
     map (\<lambda>i. cross3 (poly ! i) (poly ! ((i + 1) mod length poly)) p) [0..<length poly]"

fun onOrInside :: "point list \<Rightarrow> point \<Rightarrow> bool" where
  "onOrInside [] p = False"
| "onOrInside [a] p = (px p = px a \<and> py p = py a)"
| "onOrInside [a, b] p =
     (cross3 a b p = 0
      \<and> min (px a) (px b) \<le> px p \<and> px p \<le> max (px a) (px b)
      \<and> min (py a) (py b) \<le> py p \<and> py p \<le> max (py a) (py b))"
| "onOrInside poly p =
     (list_all (\<lambda>c. 0 \<le> c) (edgeSides poly p) \<or> list_all (\<lambda>c. c \<le> 0) (edgeSides poly p))"

definition integral :: "point \<Rightarrow> bool" where
  "integral p = (px p = of_int \<lfloor>px p\<rfloor> \<and> py p = of_int \<lfloor>py p\<rfloor>)"

subsection \<open>Example scenes\<close>

definition pt :: "real \<Rightarrow> real \<Rightarrow> point" where
  "pt x y = \<lparr>px = x, py = y\<rparr>"

definition noParameters :: parameters where
  "noParameters = \<lparr>mass_kg = None, restitution = None, friction_coefficient = None,
     air_drag = None, initial_velocity_px_s = None, initial_velocity_m_s = None,
     initial_velocity_y_px_s = None, initial_angular_velocity_rad_s = None,
     conveyor_speed = None\<rparr>"

definition mkObject :: "string \<Rightarrow> string \<Rightarrow> point list \<Rightarrow> bool \<Rightarrow> sceneObject" where
  "mkObject n r c concave = \<lparr>name = n, role = r, contour = c, is_concave = concave,
     element_type = [], parameters = noParameters\<rparr>"

definition squareContour :: "point list" where
  "squareContour = [pt 0 0, pt 10 0, pt 10 10, pt 0 10]"

definition arrowContour :: "point list" where
  "arrowContour = [pt 0 0, pt 10 0, pt 10 10, pt 5 4, pt 0 10]"

definition unitSquare :: "point list" where
  "unitSquare = [pt 0 0, pt 1 0, pt 1 1, pt 0 1]"

definition beltObject :: sceneObject where
  "beltObject = (mkObject ''belt'' ''static'' [pt 0 20, pt 40 20, pt 40 24, pt 0 24] False)
     \<lparr>parameters := noParameters\<lparr>conveyor_speed := Some 3\<rparr>\<rparr>"

definition boxObject :: sceneObject where
  "boxObject = (mkObject ''box'' ''dynamic'' squareContour False)
     \<lparr>parameters := noParameters\<lparr>initial_velocity_px_s := Some 7,
        initial_velocity_y_px_s := Some 2, initial_angular_velocity_rad_s := Some 1\<rparr>\<rparr>"

definition mkPendulum :: "string \<Rightarrow> string \<Rightarrow> point \<Rightarrow> constraintSpec" where
  "mkPendulum subject pivot p = \<lparr>bodyName = subject, pivotName = pivot,
     pivotPoint = Some p, secondPivotName = [], secondPivotPoint = None, springType = [],
     constraintType = ''pendulum'', stiffness = None, damping = None, lengthPx = None,
     springLength = 0\<rparr>"

definition mkSpring :: "string \<Rightarrow> string \<Rightarrow> point \<Rightarrow> string \<Rightarrow> point \<Rightarrow> constraintSpec" where
  "mkSpring kind first p second q = \<lparr>bodyName = ''spring'', pivotName = first,
     pivotPoint = Some p, secondPivotName = second, secondPivotPoint = Some q,
     springType = kind, constraintType = ''spring'', stiffness = None, damping = None,
     lengthPx = None, springLength = 50\<rparr>"

definition mkArgs :: "rect option \<Rightarrow> sceneObject list \<Rightarrow> constraintSpec list \<Rightarrow> simArgs" where
  "mkArgs c objs cs = \<lparr>container = c, objects = objs, constraints = cs, imageRect = None,
     naturalW = 0, naturalH = 0\<rparr>"

definition oneBody :: world where
  "oneBody = buildBodies standInBackend 1 1 [boxObject] emptyWorld"

definition launcherSpec :: constraintSpec where
  "launcherSpec = mkSpring ''launcher'' ''wall'' (pt 0 0) ''box'' (pt 100 50)"

definition launcherWorld :: world where
  "launcherWorld = projr (buildConstraints standInBackend 1 1 [launcherSpec] oneBody)"

definition staticStub :: sceneObject where
  "staticStub = mkObject ''ground'' ''static'' [] False"

definition wideArgs :: simArgs where
  "wideArgs = mkArgs (Some \<lparr>left = 0, top = 0, width = 1049, height = 1049\<rparr>) [staticStub] []"

definition conveyorWorld :: world where
  "conveyorWorld = buildBodies standInBackend 1 1 [beltObject, boxObject] emptyWorld"

text \<open>A second belt of speed 5, and a box that is given the name of the first belt.\<close>

definition fastBeltObject :: sceneObject where
  "fastBeltObject = (mkObject ''ramp'' ''static'' [pt 0 30, pt 40 30, pt 40 34, pt 0 34] False)
     \<lparr>parameters := noParameters\<lparr>conveyor_speed := Some 5\<rparr>\<rparr>"

definition namesakeObject :: sceneObject where
  "namesakeObject = boxObject\<lparr>name := ''belt''\<rparr>"

definition twoBeltWorld :: world where
  "twoBeltWorld =
     buildBodies standInBackend 1 1 [beltObject, fastBeltObject, boxObject] emptyWorld"

definition namesakeWorld :: world where
  "namesakeWorld = buildBodies standInBackend 1 1 [beltObject, namesakeObject] emptyWorld"

definition lShape :: "point list" where
  "lShape = [pt 0 0, pt 24 0, pt 24 6, pt 6 6, pt 6 24, pt 0 24]"

subsection \<open>Invariants of the object loop\<close>

text \<open>Every handle in \<^verbatim>\<open>bodiesMap\<close> names a body that exists.\<close>

definition handlesBounded :: "world \<Rightarrow> bool" where
  "handlesBounded w = list_all (\<lambda>e. snd e < length (worldBodies w)) (bodiesMap w)"

text \<open>
  No two entries of \<^verbatim>\<open>bodiesMap\<close> hold the same body, and \<^verbatim>\<open>__proto__\<close> is never
  an own key.
\<close>

definition tableSound :: "world \<Rightarrow> bool" where
  "tableSound w =
     (handlesBounded w \<and> distinct (map snd (bodiesMap w))
      \<and> map_of (bodiesMap w) ''__proto__'' = None)"

text \<open>
  The body \<open>cb\<close> is held in \<^verbatim>\<open>bodiesMap\<close> under the name \<open>n\<close>, and
  \<^verbatim>\<open>conveyorParams\<close> records the speed \<open>v\<close> for that name.
\<close>

definition registeredAs :: "world \<Rightarrow> nat \<Rightarrow> string \<Rightarrow> real \<Rightarrow> bool" where
  "registeredAs w cb n v =
     (map_of (bodiesMap w) n = Some cb \<and> map_of (conveyorParams w) n = Some v)"

text \<open>
  Two worlds with the same tables whose bodies differ at most in the horizontal
  velocity and the angular velocity, the two fields that the hook writes.
\<close>

definition sameButMotion :: "world \<Rightarrow> world \<Rightarrow> bool" where
  "sameButMotion w w' =
     (bodiesMap w' = bodiesMap w \<and> conveyorParams w' = conveyorParams w
      \<and> map (setMotion 0) (worldBodies w') = map (setMotion 0) (worldBodies w))"

subsection \<open>Invariants of the hull scan\<close>

text \<open>
  The stack of the scan, top first: every three consecutive points make a left turn,
  and every point of \<open>P\<close> lies on or left of every edge, taken from the deeper point
  to the one above it.
\<close>

fun turnsLeft :: "point list \<Rightarrow> bool" where
  "turnsLeft (c # b # a # rest) = (0 < cross3 a b c \<and> turnsLeft (b # a # rest))"
| "turnsLeft st = True"

fun edgesLeft :: "point set \<Rightarrow> point list \<Rightarrow> bool" where
  "edgesLeft P (b # a # rest) = ((\<forall>p\<in>P. 0 \<le> cross3 a b p) \<and> edgesLeft P (a # rest))"
| "edgesLeft P st = True"

text \<open>
  The state of the scan after the points \<open>P\<close>: the stack runs from the last point
  scanned down to the first one, in the order of the scan, and is a convex chain that
  has all of \<open>P\<close> on its left.
\<close>

definition scanInv :: "point set \<Rightarrow> point list \<Rightarrow> bool" where
  "scanInv P st =
     ((st = [] \<longleftrightarrow> P = {}) \<and> set st \<subseteq> P
      \<and> (\<forall>p\<in>P. pointLeq p (hd st)) \<and> (\<forall>p\<in>P. pointLeq (last st) p)
      \<and> sorted_wrt (\<lambda>x y. pointLeq y x) st \<and> turnsLeft st \<and> edgesLeft P st)"

text \<open>The reflection in the origin turns the order of the scan round and keeps turns.\<close>

definition mirror :: "point \<Rightarrow> point" where
  "mirror p = \<lparr>px = - px p, py = - py p\<rparr>"

text \<open>A walk that has every point of \<open>P\<close> on or left of each of its steps.\<close>

fun stepsLeft :: "point set \<Rightarrow> point list \<Rightarrow> bool" where
  "stepsLeft P (a # b # rest) = ((\<forall>p\<in>P. 0 \<le> cross3 a b p) \<and> stepsLeft P (b # rest))"
| "stepsLeft P walk = True"


section \<open>Properties\<close>

subsection \<open>Unfolding the model on concrete scenes\<close>

lemmas geometry_defs = jsRound_def jsFloor_def pt_def scalePoint_def roundPoint_def
  shoelaceSum_def shoelaceTerm_def polygonArea_def calculateCentroid_def
  fanTriangle_def decomposeToTriangleFan_def toConvexHull_def cross3_def

lemmas body_defs = numOr_def optOr_def orElse_def newBody_def rectangleBody_def
  polygonBody_def triangleBody_def applyPhysicsProperties_def createConvexHullBody_def
  isConveyorObject_def register_def addConvexBody_def addTriangleFan_def addObject_def
  buildBodies_def emptyWorld_def mkObject_def noParameters_def always_def
  standInBackend_def standInProperty_def toLowerCase_def lowerChar_def showNat_def

lemmas table_defs = tableGet_def fromObjectPrototype_def objectPrototypeKeys_def

lemmas constraint_defs = mapPivot_def anchorUnless_def endBody_def constraintCreate_def
  REDUCED_BODY_SIZE_def addSpringConstraint_def slugBody_def addSpringLauncher_def
  pendulumStiffness_def pendulumLength_def addPendulum_def isSpringSystem_def
  addConstraint_def mkPendulum_def mkSpring_def launcherSpec_def

lemmas layout_defs = containerRect_def imgRect_def canvasWidth_def canvasHeight_def
  scaleX_def scaleY_def mkArgs_def wallThickness_def wall_def boundaryWalls_def
  addWalls_def buildScene_def runSimulation_def

lemmas hook_defs = getBody_def hasLabel_def conveyorSpeedOf_def hookTarget_def
  setMotion_def conveyorStep_def onBeforeUpdate_def labelOf_def launcherHit_def
  onCollisionStart_def resolveIdentifier_def callbackScope_def timerCallback_def
  fireTimer_def bodyInWorld_def constraintInWorld_def

lemmas hull_defs = chainHull_def sortPoints_def chainScan_def pointLeq_def

subsection \<open>Evaluation of the distance test\<close>

lemma distance_gt_one: "distance p q > 1 \<longleftrightarrow> (px q - px p)\<^sup>2 + (py q - py p)\<^sup>2 > 1"
  by (simp add: distance_def)

lemma dedupFrom_code [code]:
  "dedupFrom prev [] = []"
  "dedupFrom prev (cur # rest) =
     (if (px cur - px prev)\<^sup>2 + (py cur - py prev)\<^sup>2 > 1
      then cur # dedupFrom cur rest else dedupFrom prev rest)"
  by (simp_all add: distance_gt_one)

lemmas contour_defs = preprocessContour_def uniquePoints_def distance_gt_one
  squareContour_def arrowContour_def unitSquare_def

subsection \<open>The sanitizer is idempotent\<close>

lemma dedupFrom_idem: "dedupFrom prev (dedupFrom prev ps) = dedupFrom prev ps"
  by (induction ps arbitrary: prev) simp_all

lemma uniquePoints_idem: "uniquePoints (uniquePoints ps) = uniquePoints ps"
  by (cases ps) (simp_all add: uniquePoints_def dedupFrom_idem)

text \<open>
  Claim C10. Contour sanitization is idempotent: for every point sequence,
  \<^verbatim>\<open>preprocessContour\<close> applied to its own output returns that output unchanged.
\<close>

theorem preprocessContour_idempotent:
  "preprocessContour (preprocessContour ps) = preprocessContour ps"
proof (cases "length ps < 3")
  case True
  then show ?thesis by (simp add: preprocessContour_def)
next
  case long: False
  show ?thesis
  proof (cases "length (uniquePoints ps) \<ge> 3")
    case True
    then show ?thesis
      using long by (simp add: preprocessContour_def Let_def uniquePoints_idem)
  next
    case False
    then show ?thesis
      using long by (simp add: preprocessContour_def Let_def)
  qed
qed

subsection \<open>Degenerate contours\<close>

lemma length_preprocessContour_lt3:
  "length (preprocessContour ps) < 3 \<longleftrightarrow> length ps < 3"
  by (auto simp: preprocessContour_def Let_def)

text \<open>
  Claim C2, as stated, fails on a square of side 1: the deduplication walk keeps only
  \<open>(0, 0)\<close> and \<open>(1, 1)\<close>, the neighbours being at distance exactly 1, and yet a
  body is created from all four points, because \<^verbatim>\<open>preprocessContour\<close> hands back the
  scaled contour when fewer than three points survive.
\<close>

theorem degenerate_contour_counterexample:
  "uniquePoints (map (scalePoint standInBackend 1 1) unitSquare) = [pt 0 0, pt 1 1]
   \<and> map bodyShape (worldBodies (addObject standInBackend 1 1
        (mkObject ''dot'' ''dynamic'' unitSquare False) emptyWorld)) = [Polygon unitSquare]"
  by (simp add: geometry_defs contour_defs body_defs)

text \<open>
  Claim C2, amended. For every scene object whose contour has fewer than 3 points after
  coordinate scaling and \<^verbatim>\<open>preprocessContour\<close>, the object is skipped: the world is
  left as it was, so no body is created and nothing fails. Since
  \<^verbatim>\<open>preprocessContour\<close> returns the deduplicated sequence only when it keeps at least
  3 points and the scaled contour otherwise, these are exactly the objects whose raw
  contour has fewer than 3 points.
\<close>

theorem degenerate_contour_skipped:
  "(length (preprocessContour (map (scalePoint be sx sy) (contour obj))) < 3
      \<longleftrightarrow> length (contour obj) < 3)
   \<and> (length (preprocessContour (map (scalePoint be sx sy) (contour obj))) < 3
      \<longrightarrow> addObject be sx sy obj w = w)"
  by (simp add: length_preprocessContour_lt3 addObject_def)

theorem degenerate_contour_skipped_witness:
  "length (preprocessContour (map (scalePoint standInBackend 1 1) [pt 0 0, pt 9 9])) < 3
   \<and> addObject standInBackend 1 1 (mkObject ''seg'' ''dynamic'' [pt 0 0, pt 9 9] False) emptyWorld
       = emptyWorld"
  using degenerate_contour_skipped [of standInBackend 1 1
      "mkObject ''seg'' ''dynamic'' [pt 0 0, pt 9 9] False" emptyWorld]
  by (simp add: mkObject_def)

subsection \<open>Registration of bodies\<close>

lemma oneBody_tables:
  "bodiesMap oneBody = [(''box'', 0)]" "tableProto oneBody = None"
  "length (worldBodies oneBody) = 1" "worldConstraints oneBody = []" "launchers oneBody = []"
  by (simp_all add: oneBody_def boxObject_def body_defs contour_defs geometry_defs Let_def)

text \<open>
  Claim C3 at a failing input: a dynamic concave object named \<open>arrow\<close>. Its hull body
  is added to the world, but \<^verbatim>\<open>bodiesMap\<close> stays empty, and a pendulum constraint
  naming \<open>arrow\<close> as its subject is skipped: the constraint loop completes and leaves
  the world without a constraint.
\<close>

theorem concave_body_not_registered:
  "length (worldBodies (buildBodies standInBackend 1 1
      [mkObject ''arrow'' ''dynamic'' arrowContour True] emptyWorld)) = 1
   \<and> bodiesMap (buildBodies standInBackend 1 1
      [mkObject ''arrow'' ''dynamic'' arrowContour True] emptyWorld) = []
   \<and> buildConstraints standInBackend 1 1 [mkPendulum ''arrow'' ''hook'' (pt 5 0)]
      (buildBodies standInBackend 1 1
         [mkObject ''arrow'' ''dynamic'' arrowContour True] emptyWorld)
      = Inr (buildBodies standInBackend 1 1
         [mkObject ''arrow'' ''dynamic'' arrowContour True] emptyWorld)
   \<and> worldConstraints (buildBodies standInBackend 1 1
         [mkObject ''arrow'' ''dynamic'' arrowContour True] emptyWorld) = []"
  by (simp add: constraint_defs table_defs body_defs contour_defs geometry_defs hull_defs
      Let_def)

subsection \<open>Pivot names that the name table inherits\<close>

text \<open>
  A pivot name that the table neither holds nor inherits gives a constraint with a world
  anchor at the mapped pivot point, whenever the constraint has a subject or is a spring
  system.
\<close>

lemma missing_pivot_world_anchor:
  assumes "tableGet be w (pivotName c) = NoValue"
    and "isSpringSystem c \<or> (\<exists>h. tableGet be w (bodyName c) = BodyRef h)"
    and "isSpringSystem c \<and> springType c = ''constraint'' \<longrightarrow>
         tableGet be w (secondPivotName c) \<noteq> NotABody"
  shows "\<exists>w' k. addConstraint be sx sy c w = Inr w'
           \<and> worldConstraints w' = worldConstraints w @ [k]
           \<and> bodyA k = None \<and> pointA k = Some (mapPivot be sx sy (pivotPoint c))"
proof (cases "isSpringSystem c")
  case True
  show ?thesis
  proof (cases "springType c = ''constraint''")
    case True
    with \<open>isSpringSystem c\<close> assms show ?thesis
      by (cases "tableGet be w (secondPivotName c)")
         (simp_all add: addConstraint_def addSpringConstraint_def constraintCreate_def
           endBody_def anchorUnless_def Let_def)
  next
    case False
    with \<open>isSpringSystem c\<close> assms show ?thesis
      by (simp add: addConstraint_def addSpringLauncher_def constraintCreate_def
          endBody_def anchorUnless_def Let_def)
  qed
next
  case False
  with assms obtain h where "tableGet be w (bodyName c) = BodyRef h" by blast
  with False assms show ?thesis
    by (simp add: addConstraint_def addPendulum_def constraintCreate_def endBody_def
        anchorUnless_def Let_def)
qed

lemma times_standIn: "times standInBackend = (*)"
  by (simp add: standInBackend_def)

text \<open>
  Claim C5 at a failing input: a pendulum on the body \<open>box\<close> whose pivot is named
  \<open>toString\<close>. No object bears that name, but the lookup
  \<^verbatim>\<open>bodiesMap['toString']\<close> finds the function that the table inherits from
  \<^verbatim>\<open>Object.prototype\<close>, a truthy value that is no body; \<^verbatim>\<open>Constraint.create\<close>
  reads its position and throws a type error, which leaves \<^verbatim>\<open>runSimulation\<close>. A
  pivot name that the table does not inherit, such as \<open>hook\<close>, gives the constraint
  with a world anchor that the claim describes.
\<close>

theorem inherited_pivot_name_throws:
  "tableGet standInBackend oneBody ''box'' = BodyRef 0
   \<and> tableGet standInBackend oneBody ''hook'' = NoValue
   \<and> addConstraint standInBackend 1 1 (mkPendulum ''box'' ''hook'' (pt 100 50)) oneBody
       = Inr (oneBody\<lparr>worldConstraints :=
           [\<lparr>bodyA = None, pointA = Some (pt 100 50), bodyB = Some 0, pointB = None,
             conLength = None, conStiffness = 1, conDamping = None, conVisible = True\<rparr>]\<rparr>)
   \<and> tableGet standInBackend oneBody ''toString'' = NotABody
   \<and> addConstraint standInBackend 1 1 (mkPendulum ''box'' ''toString'' (pt 100 50)) oneBody
       = Inl (TypeError ''position'')
   \<and> runSimulation standInBackend
        (mkArgs None [boxObject] [mkPendulum ''box'' ''toString'' (pt 100 50)])
       = Inl (TypeError ''position'')"
proof -
  have built: "buildBodies standInBackend 1 1 [boxObject] emptyWorld = oneBody"
    by (simp add: oneBody_def)
  have "runSimulation standInBackend
        (mkArgs None [boxObject] [mkPendulum ''box'' ''toString'' (pt 100 50)])
       = Inl (TypeError ''position'')"
    by (simp add: runSimulation_def buildScene_def scaleX_def scaleY_def mkArgs_def built
        constraint_defs table_defs oneBody_tables Let_def)
  then show ?thesis
    by (simp add: constraint_defs table_defs oneBody_tables Let_def jsRound_def pt_def
        times_standIn numOr_def)
qed

subsection \<open>The launcher's slug\<close>

lemma launcherWorld_built:
  "buildConstraints standInBackend 1 1 [launcherSpec] oneBody = Inr launcherWorld"
  by (simp add: launcherWorld_def constraint_defs table_defs oneBody_tables Let_def)

text \<open>
  Claim C6 at a failing input: a launcher from a world anchor at \<open>(0, 0)\<close> towards the
  body \<open>box\<close> at \<open>(100, 50)\<close>. The slug is created at \<open>(90, 45)\<close>, 90% of the way, and
  its contact with \<open>box\<close> schedules one timer of 100 ms; the timer's callback stops with
  a reference error at the unbound name \<^verbatim>\<open>World\<close>, so the slug and its spring are
  still in the world afterwards.
\<close>

theorem launcher_slug_never_removed:
  "buildConstraints standInBackend 1 1 [launcherSpec] oneBody = Inr launcherWorld
   \<and> bodyShape (worldBodies launcherWorld ! 1) = Rectangle (pt 90 45) 20 20
   \<and> launchers launcherWorld
       = [\<lparr>reducedBody = 1, springConstraint = 0, secondBody = BodyRef 0\<rparr>]
   \<and> onCollisionStart launcherWorld [(1, 0)]
       = [Timer 100 \<lparr>reducedBody = 1, springConstraint = 0, secondBody = BodyRef 0\<rparr>]
   \<and> timerCallback (Timer 100 \<lparr>reducedBody = 1, springConstraint = 0, secondBody = BodyRef 0\<rparr>)
        launcherWorld = Inl (ReferenceError ''World'')
   \<and> bodyInWorld (fold fireTimer (onCollisionStart launcherWorld [(1, 0)]) launcherWorld) 1
   \<and> constraintInWorld (fold fireTimer (onCollisionStart launcherWorld [(1, 0)]) launcherWorld) 0"
  by (simp add: launcherWorld_def oneBody_def boxObject_def constraint_defs table_defs
      body_defs contour_defs geometry_defs hook_defs Let_def)

subsection \<open>Starting without a render surface or without objects\<close>









subsection \<open>When the boundary walls are added\<close>

lemma hasStatic_createConvexHullBody [simp]:
  "hasStatic (createConvexHullBody be processed obj isStat fric air rest w) = hasStatic w"
  by (simp add: createConvexHullBody_def Let_def)

lemma hasStatic_addConvexBody [simp]:
  "hasStatic (addConvexBody be processed obj isStat fric air rest w) = hasStatic w"
  by (simp add: addConvexBody_def register_def Let_def)

lemma hasStatic_addTriangleFan [simp]:
  "hasStatic (addTriangleFan be processed obj isStat fric air rest w) = hasStatic w"
  by (simp add: addTriangleFan_def Let_def)

lemma hasStatic_addObject:
  "hasStatic (addObject be sx sy obj w) \<longleftrightarrow>
     hasStatic w \<or> (role obj = ''static'' \<and> 3 \<le> length (contour obj))"
  by (auto simp: addObject_def Let_def length_preprocessContour_lt3)

lemma hasStatic_buildBodies:
  "hasStatic (buildBodies be sx sy objs w) \<longleftrightarrow>
     hasStatic w \<or> (\<exists>obj\<in>set objs. role obj = ''static'' \<and> 3 \<le> length (contour obj))"
  unfolding buildBodies_def
  by (induction objs arbitrary: w) (auto simp: hasStatic_addObject)

lemma hasStatic_addConstraint:
  "addConstraint be sx sy c w = Inr w' \<Longrightarrow> hasStatic w' = hasStatic w"
  by (auto simp: addConstraint_def addSpringConstraint_def addSpringLauncher_def
      addPendulum_def Let_def split: if_splits sum.splits jsValue.splits)

lemma hasStatic_buildConstraints:
  "buildConstraints be sx sy cs w = Inr w' \<Longrightarrow> hasStatic w' = hasStatic w"
proof (induction cs arbitrary: w)
  case Nil
  then show ?case by simp
next
  case (Cons c cs)
  then show ?case
    by (cases "addConstraint be sx sy c w") (auto dest: hasStatic_addConstraint)
qed

text \<open>
  Claim C4, as stated, fails twice on a canvas of 1049 by 1049 with one object of role
  static whose contour is empty: the object is skipped before \<^verbatim>\<open>hasStatic\<close> is set, so
  the four walls are added although an object of role static is in the scene; and their
  thickness is 20, the floor of the 20.98 that 2% of the smaller dimension gives.
\<close>

theorem boundary_walls_counterexample:
  "role staticStub = ''static''
   \<and> buildScene standInBackend wideArgs
       = Inr (emptyWorld\<lparr>worldBodies := boundaryWalls 1049 1049\<rparr>)
   \<and> map bodyShape (boundaryWalls 1049 1049) =
       [Rectangle (pt (1049 / 2) (- 10)) 1049 20, Rectangle (pt (1049 / 2) 1059) 1049 20,
        Rectangle (pt (- 10) (1049 / 2)) 20 1049, Rectangle (pt 1059 (1049 / 2)) 20 1049]
   \<and> max 10 (min 1049 1049 * (2 / 100)) \<noteq> (20 :: real)"
  by (simp add: staticStub_def wideArgs_def layout_defs body_defs constraint_defs geometry_defs)

text \<open>
  Claim C4, amended. When the constraint loop completes: if no object of the scene has
  role static together with a contour of at least 3 points, \<^verbatim>\<open>runSimulation\<close> adds
  exactly four invisible static boundary walls sized to the canvas, of thickness
  \<open>max 10 \<lfloor>2% of the smaller canvas dimension\<rfloor>\<close>; if at least one object has role
  static and a contour of at least 3 points, no wall is added. When the constraint loop
  throws, \<^verbatim>\<open>runSimulation\<close> ends with that error before any wall is made.
\<close>

theorem boundary_walls_iff_no_static_body:
  "buildScene be args =
     (case buildConstraints be (scaleX args) (scaleY args) (constraints args)
             (buildBodies be (scaleX args) (scaleY args) (objects args) emptyWorld) of
        Inl e \<Rightarrow> Inl e
      | Inr constrained \<Rightarrow>
          Inr (if \<exists>obj\<in>set (objects args). role obj = ''static'' \<and> 3 \<le> length (contour obj)
               then constrained
               else constrained\<lparr>worldBodies := worldBodies constrained
                      @ boundaryWalls (canvasWidth args) (canvasHeight args)\<rparr>))
   \<and> length (boundaryWalls w h) = 4
   \<and> list_all (\<lambda>b. isStatic b \<and> \<not> renderVisible b) (boundaryWalls w h)
   \<and> map bodyShape (boundaryWalls w h) =
       [Rectangle (pt (w / 2) (- wallThickness w h / 2)) w (wallThickness w h),
        Rectangle (pt (w / 2) (h + wallThickness w h / 2)) w (wallThickness w h),
        Rectangle (pt (- wallThickness w h / 2) (h / 2)) (wallThickness w h) h,
        Rectangle (pt (w + wallThickness w h / 2) (h / 2)) (wallThickness w h) h]
   \<and> wallThickness w h = max 10 (of_int \<lfloor>min w h * (2 / 100)\<rfloor>)"
proof -
  let ?built = "buildBodies be (scaleX args) (scaleY args) (objects args) emptyWorld"
  let ?loop = "buildConstraints be (scaleX args) (scaleY args) (constraints args) ?built"
  have static: "hasStatic ?built \<longleftrightarrow>
      (\<exists>obj\<in>set (objects args). role obj = ''static'' \<and> 3 \<le> length (contour obj))"
    by (simp add: hasStatic_buildBodies emptyWorld_def)
  have walls: "buildScene be args =
     (case ?loop of
        Inl e \<Rightarrow> Inl e
      | Inr constrained \<Rightarrow>
          Inr (if \<exists>obj\<in>set (objects args). role obj = ''static'' \<and> 3 \<le> length (contour obj)
               then constrained
               else constrained\<lparr>worldBodies := worldBodies constrained
                      @ boundaryWalls (canvasWidth args) (canvasHeight args)\<rparr>))"
  proof (cases ?loop)
    case (Inl e)
    then show ?thesis by (simp add: buildScene_def Let_def)
  next
    case (Inr constrained)
    from hasStatic_buildConstraints [OF Inr] static
    have "hasStatic constrained \<longleftrightarrow>
      (\<exists>obj\<in>set (objects args). role obj = ''static'' \<and> 3 \<le> length (contour obj))"
      by simp
    with Inr show ?thesis by (simp add: buildScene_def Let_def addWalls_def)
  qed
  have shapes: "length (boundaryWalls w h) = 4"
    "list_all (\<lambda>b. isStatic b \<and> \<not> renderVisible b) (boundaryWalls w h)"
    by (simp_all add: boundaryWalls_def Let_def wall_def rectangleBody_def newBody_def)
  have rects: "map bodyShape (boundaryWalls w h) =
       [Rectangle (pt (w / 2) (- wallThickness w h / 2)) w (wallThickness w h),
        Rectangle (pt (w / 2) (h + wallThickness w h / 2)) w (wallThickness w h),
        Rectangle (pt (- wallThickness w h / 2) (h / 2)) (wallThickness w h) h,
        Rectangle (pt (w + wallThickness w h / 2) (h / 2)) (wallThickness w h) h]"
    by (simp add: boundaryWalls_def Let_def wall_def rectangleBody_def newBody_def pt_def)
  have thick: "wallThickness w h = max 10 (of_int \<lfloor>min w h * (2 / 100)\<rfloor>)"
    by (simp add: wallThickness_def jsFloor_def)
  from walls shapes rects thick show ?thesis by simp
qed

theorem boundary_walls_iff_no_static_body_witness:
  "buildScene standInBackend (mkArgs None [boxObject] [])
     = Inr (oneBody\<lparr>worldBodies := worldBodies oneBody @ boundaryWalls 640 360\<rparr>)
   \<and> buildScene standInBackend (mkArgs None [beltObject, boxObject] [])
     = Inr conveyorWorld
   \<and> buildScene standInBackend
        (mkArgs None [beltObject, boxObject] [mkPendulum ''box'' ''toString'' (pt 100 50)])
     = Inl (TypeError ''position'')
   \<and> wallThickness 640 360 = 10"
proof -
  have one: "buildBodies standInBackend 1 1 [boxObject] emptyWorld = oneBody"
    by (simp add: oneBody_def)
  have two: "buildBodies standInBackend 1 1 [beltObject, boxObject] emptyWorld = conveyorWorld"
    by (simp add: conveyorWorld_def)
  have scale: "scaleX (mkArgs None objs cs) = 1" "scaleY (mkArgs None objs cs) = 1"
    "canvasWidth (mkArgs None objs cs) = 640" "canvasHeight (mkArgs None objs cs) = 360"
    "objects (mkArgs None objs cs) = objs" "constraints (mkArgs None objs cs) = cs"
    for objs cs
    by (simp_all add: layout_defs orElse_def jsFloor_def)
  have roles: "role boxObject \<noteq> ''static''" "role beltObject = ''static''"
    "length (contour beltObject) = 4"
    by (simp_all add: boxObject_def beltObject_def mkObject_def squareContour_def)
  have throws: "addConstraint standInBackend 1 1
      (mkPendulum ''box'' ''toString'' (pt 100 50)) conveyorWorld = Inl (TypeError ''position'')"
    by (simp add: conveyorWorld_def boxObject_def beltObject_def constraint_defs table_defs
        body_defs contour_defs geometry_defs Let_def)
  from boundary_walls_iff_no_static_body [of standInBackend "mkArgs None [boxObject] []" 640 360]
    boundary_walls_iff_no_static_body
      [of standInBackend "mkArgs None [beltObject, boxObject] []" 640 360]
    boundary_walls_iff_no_static_body
      [of standInBackend "mkArgs None [beltObject, boxObject]
         [mkPendulum ''box'' ''toString'' (pt 100 50)]" 640 360]
  show ?thesis
    by (simp add: scale one two roles throws wallThickness_def jsFloor_def)
qed

subsection \<open>The conveyor hook\<close>

lemma set_assign: "set (assign k v m) \<subseteq> insert (k, v) (set m)"
  by (induction m) (auto split: if_splits)

lemma map_of_assign: "map_of (assign k v m) n = (if n = k then Some v else map_of m n)"
  by (induction m) auto

lemma snd_set_assign: "snd ` set (assign k v m) \<subseteq> insert v (snd ` set m)"
  using set_assign [of k v m] by force

lemma distinct_assign_fresh:
  "distinct (map snd m) \<Longrightarrow> h \<notin> snd ` set m \<Longrightarrow> distinct (map snd (assign k h m))"
proof (induction m)
  case Nil
  then show ?case by simp
next
  case (Cons e m)
  obtain k' v' where e: "e = (k', v')" by (cases e)
  show ?case
  proof (cases "k' = k")
    case True
    with Cons.prems e show ?thesis by auto
  next
    case False
    have "v' \<notin> snd ` set (assign k h m)"
      using snd_set_assign [of k h m] Cons.prems e by auto
    with False Cons e show ?thesis by auto
  qed
qed

lemma assign_displaces:
  "distinct (map snd m) \<Longrightarrow> map_of m n = Some cb \<Longrightarrow> cb \<noteq> h \<Longrightarrow>
   cb \<notin> snd ` set (assign n h m)"
proof (induction m)
  case Nil
  then show ?case by simp
next
  case (Cons e m)
  obtain k' v' where e: "e = (k', v')" by (cases e)
  show ?case
  proof (cases "k' = n")
    case True
    with Cons.prems e show ?thesis by force
  next
    case False
    with Cons.prems e have inner: "map_of m n = Some cb" by simp
    then have "(n, cb) \<in> set m" by (rule map_of_SomeD)
    then have "cb \<in> snd ` set m" by force
    with Cons.prems e have "v' \<noteq> cb" by auto
    moreover from Cons.IH inner Cons.prems have "cb \<notin> snd ` set (assign n h m)" by simp
    ultimately show ?thesis using False e by auto
  qed
qed

lemma find_by_handle:
  "distinct (map snd m) \<Longrightarrow> (n, cb) \<in> set m \<Longrightarrow> find (\<lambda>e. snd e = cb) m = Some (n, cb)"
  by (induction m) force+

lemma label_applyPhysicsProperties [simp]:
  "label (applyPhysicsProperties b obj processed isStat) = label b"
  by (simp add: applyPhysicsProperties_def Let_def)

lemma label_polygonBody [simp]: "label (polygonBody verts isStat fric air rest) = ''Body''"
  by (simp add: polygonBody_def newBody_def)

lemma label_triangleBody [simp]: "label (triangleBody tri fric rest) = ''Body''"
  by (simp add: triangleBody_def newBody_def)

text \<open>Every round of the object loop only appends bodies.\<close>

lemma worldBodies_addObject:
  "\<exists>new. worldBodies (addObject be sx sy obj w) = worldBodies w @ new"
  by (simp add: addObject_def addConvexBody_def addTriangleFan_def
      createConvexHullBody_def register_def Let_def)

lemma length_worldBodies_addObject:
  "length (worldBodies w) \<le> length (worldBodies (addObject be sx sy obj w))"
  using worldBodies_addObject [of be sx sy obj w] by auto

text \<open>What one round of the object loop does to the two tables.\<close>

lemma tables_addConvexBody:
  "(bodiesMap (addConvexBody be processed obj isStat fric air rest w) = bodiesMap w
      \<and> conveyorParams (addConvexBody be processed obj isStat fric air rest w)
          = conveyorParams w)
   \<or> (bodiesMap (addConvexBody be processed obj isStat fric air rest w) = bodiesMap w
      \<and> (\<exists>v. conveyorParams (addConvexBody be processed obj isStat fric air rest w)
               = assign ''__proto__'' v (conveyorParams w)))
   \<or> (\<exists>k. k \<noteq> ''__proto__''
        \<and> bodiesMap (addConvexBody be processed obj isStat fric air rest w)
            = assign k (length (worldBodies w)) (bodiesMap w)
        \<and> length (worldBodies (addConvexBody be processed obj isStat fric air rest w))
            = Suc (length (worldBodies w))
        \<and> (conveyorParams (addConvexBody be processed obj isStat fric air rest w)
             = conveyorParams w
           \<or> (\<exists>v. conveyorParams (addConvexBody be processed obj isStat fric air rest w)
                    = assign k v (conveyorParams w))))"
proof (cases "fromVertices be processed")
  case False
  then show ?thesis by (simp add: addConvexBody_def)
next
  case accepted: True
  let ?w' = "addConvexBody be processed obj isStat fric air rest w"
  define key where
    "key = (if name obj \<noteq> [] then name obj else ''body-'' @ showNat (length (bodiesMap w)))"
  define speed where "speed = numOr (conveyor_speed (parameters obj)) 0"
  have bm: "bodiesMap ?w' = (if key = ''__proto__'' then bodiesMap w
      else assign key (length (worldBodies w)) (bodiesMap w))"
    using accepted by (simp add: addConvexBody_def register_def Let_def key_def)
  have cp: "conveyorParams ?w' = (if isStat \<and> isConveyorObject obj
      then assign key speed (conveyorParams w) else conveyorParams w)"
    using accepted by (simp add: addConvexBody_def register_def Let_def key_def speed_def)
  show ?thesis
  proof (cases "key = ''__proto__''")
    case True
    with bm cp show ?thesis by (cases "isStat \<and> isConveyorObject obj") auto
  next
    case False
    with bm have "bodiesMap ?w' = assign key (length (worldBodies w)) (bodiesMap w)"
      by simp
    moreover from cp have "conveyorParams ?w' = conveyorParams w
        \<or> (\<exists>v. conveyorParams ?w' = assign key v (conveyorParams w))"
      by (cases "isStat \<and> isConveyorObject obj") auto
    moreover have "length (worldBodies ?w') = Suc (length (worldBodies w))"
      using accepted by (simp add: addConvexBody_def register_def Let_def)
    ultimately show ?thesis using False by blast
  qed
qed

lemma tables_addObject:
  "(bodiesMap (addObject be sx sy obj w) = bodiesMap w
      \<and> conveyorParams (addObject be sx sy obj w) = conveyorParams w)
   \<or> (bodiesMap (addObject be sx sy obj w) = bodiesMap w
      \<and> (\<exists>v. conveyorParams (addObject be sx sy obj w)
               = assign ''__proto__'' v (conveyorParams w)))
   \<or> (\<exists>k. k \<noteq> ''__proto__''
        \<and> bodiesMap (addObject be sx sy obj w)
            = assign k (length (worldBodies w)) (bodiesMap w)
        \<and> length (worldBodies (addObject be sx sy obj w)) = Suc (length (worldBodies w))
        \<and> (conveyorParams (addObject be sx sy obj w) = conveyorParams w
           \<or> (\<exists>v. conveyorParams (addObject be sx sy obj w)
                    = assign k v (conveyorParams w))))"
proof -
  let ?processed = "preprocessContour (map (scalePoint be sx sy) (contour obj))"
  let ?w1 = "if role obj = ''static'' then w\<lparr>hasStatic := True\<rparr> else w"
  show ?thesis
  proof (cases "role obj \<noteq> ''constraint'' \<and> \<not> length (contour obj) < 3
      \<and> \<not> length ?processed < 3 \<and> \<not> is_concave obj")
    case True
    then have "addObject be sx sy obj w = addConvexBody be ?processed obj
        (role obj = ''static'') (numOr (friction_coefficient (parameters obj)) (2 / 10))
        (numOr (air_drag (parameters obj)) 0) (numOr (restitution (parameters obj)) 0) ?w1"
      by (simp add: addObject_def Let_def)
    moreover have "bodiesMap ?w1 = bodiesMap w" "conveyorParams ?w1 = conveyorParams w"
      "worldBodies ?w1 = worldBodies w"
      by simp_all
    ultimately show ?thesis
      using tables_addConvexBody [of be ?processed obj "role obj = ''static''"
          "numOr (friction_coefficient (parameters obj)) (2 / 10)"
          "numOr (air_drag (parameters obj)) 0" "numOr (restitution (parameters obj)) 0" ?w1]
      by simp
  next
    case False
    then have "bodiesMap (addObject be sx sy obj w) = bodiesMap w
      \<and> conveyorParams (addObject be sx sy obj w) = conveyorParams w"
      by (auto simp: addObject_def addTriangleFan_def createConvexHullBody_def Let_def)
    then show ?thesis by blast
  qed
qed

lemma tableSound_emptyWorld: "tableSound emptyWorld"
  by (simp add: tableSound_def handlesBounded_def emptyWorld_def)

lemma tableSound_addObject:
  assumes "tableSound w"
  shows "tableSound (addObject be sx sy obj w)"
proof -
  let ?w' = "addObject be sx sy obj w"
  from assms have bounded: "\<forall>e\<in>set (bodiesMap w). snd e < length (worldBodies w)"
    and dist: "distinct (map snd (bodiesMap w))"
    and proto: "map_of (bodiesMap w) ''__proto__'' = None"
    by (simp_all add: tableSound_def handlesBounded_def list_all_iff)
  have fresh: "length (worldBodies w) \<notin> snd ` set (bodiesMap w)"
    using bounded by auto
  have len: "length (worldBodies w) \<le> length (worldBodies ?w')"
    by (rule length_worldBodies_addObject)
  consider (same) "bodiesMap ?w' = bodiesMap w"
    | (new) k where "k \<noteq> ''__proto__''"
        "bodiesMap ?w' = assign k (length (worldBodies w)) (bodiesMap w)"
        "length (worldBodies ?w') = Suc (length (worldBodies w))"
    using tables_addObject [of be sx sy obj w] by blast
  then show ?thesis
  proof cases
    case same
    with bounded dist proto len show ?thesis
      by (fastforce simp: tableSound_def handlesBounded_def list_all_iff)
  next
    case new
    from new(3) have grown: "length (worldBodies w) < length (worldBodies ?w')" by simp
    have b: "\<forall>e\<in>set (bodiesMap ?w'). snd e < length (worldBodies ?w')"
    proof
      fix e assume "e \<in> set (bodiesMap ?w')"
      then have "e = (k, length (worldBodies w)) \<or> e \<in> set (bodiesMap w)"
        using set_assign [of k "length (worldBodies w)" "bodiesMap w"] new(2) by auto
      with bounded grown show "snd e < length (worldBodies ?w')" by auto
    qed
    have d: "distinct (map snd (bodiesMap ?w'))"
      using distinct_assign_fresh [OF dist fresh] new(2) by simp
    have p: "map_of (bodiesMap ?w') ''__proto__'' = None"
      using new proto by (simp add: map_of_assign)
    from b d p show ?thesis
      by (simp add: tableSound_def handlesBounded_def list_all_iff)
  qed
qed

lemma tableSound_buildBodies:
  "tableSound w \<Longrightarrow> tableSound (buildBodies be sx sy objs w)"
  unfolding buildBodies_def
  by (induction objs arbitrary: w) (simp_all add: tableSound_addObject)

text \<open>
  A body stays registered under its name with its speed until a later object is
  registered under the same name; from then on the table does not hold the body.
\<close>

lemma registered_addObject:
  assumes sound: "tableSound w"
    and range: "cb < length (worldBodies w)"
    and reg: "registeredAs w cb n v \<or> cb \<notin> snd ` set (bodiesMap w)"
  shows "registeredAs (addObject be sx sy obj w) cb n v
         \<or> cb \<notin> snd ` set (bodiesMap (addObject be sx sy obj w))"
proof -
  let ?w' = "addObject be sx sy obj w"
  let ?h = "length (worldBodies w)"
  from sound have dist: "distinct (map snd (bodiesMap w))"
    and proto: "map_of (bodiesMap w) ''__proto__'' = None"
    by (simp_all add: tableSound_def)
  from range have neq: "cb \<noteq> ?h" by simp
  consider (same) "bodiesMap ?w' = bodiesMap w" "conveyorParams ?w' = conveyorParams w"
    | (proto) v' where "bodiesMap ?w' = bodiesMap w"
        "conveyorParams ?w' = assign ''__proto__'' v' (conveyorParams w)"
    | (new) k where "k \<noteq> ''__proto__''" "bodiesMap ?w' = assign k ?h (bodiesMap w)"
        "conveyorParams ?w' = conveyorParams w
         \<or> (\<exists>v'. conveyorParams ?w' = assign k v' (conveyorParams w))"
    using tables_addObject [of be sx sy obj w] by blast
  then show ?thesis
  proof cases
    case same
    with reg show ?thesis by (simp add: registeredAs_def)
  next
    case proto
    from reg show ?thesis
    proof
      assume r: "registeredAs w cb n v"
      with \<open>map_of (bodiesMap w) ''__proto__'' = None\<close> have "n \<noteq> ''__proto__''"
        by (auto simp: registeredAs_def)
      with r proto show ?thesis by (simp add: registeredAs_def map_of_assign)
    next
      assume "cb \<notin> snd ` set (bodiesMap w)"
      with proto show ?thesis by simp
    qed
  next
    case new
    from reg show ?thesis
    proof
      assume r: "registeredAs w cb n v"
      show ?thesis
      proof (cases "k = n")
        case True
        from r have "map_of (bodiesMap w) n = Some cb" by (simp add: registeredAs_def)
        from assign_displaces [OF dist this neq] True new(2) show ?thesis by simp
      next
        case False
        with r new show ?thesis by (auto simp: registeredAs_def map_of_assign)
      qed
    next
      assume "cb \<notin> snd ` set (bodiesMap w)"
      with snd_set_assign [of k ?h "bodiesMap w"] new(2) neq show ?thesis by auto
    qed
  qed
qed

lemma registered_buildBodies:
  "tableSound w \<Longrightarrow> cb < length (worldBodies w) \<Longrightarrow>
   registeredAs w cb n v \<or> cb \<notin> snd ` set (bodiesMap w) \<Longrightarrow>
   registeredAs (buildBodies be sx sy objs w) cb n v
   \<or> cb \<notin> snd ` set (bodiesMap (buildBodies be sx sy objs w))"
  unfolding buildBodies_def
proof (induction objs arbitrary: w)
  case Nil
  then show ?case by simp
next
  case (Cons obj objs)
  have "cb < length (worldBodies (addObject be sx sy obj w))"
    using Cons.prems(2) length_worldBodies_addObject [of w be sx sy obj] by simp
  with Cons show ?case
    by (simp add: tableSound_addObject registered_addObject)
qed

lemma new_conveyor_addConvexBody:
  assumes made: "worldBodies (addConvexBody be processed obj isStat fric air rest w)
                 = worldBodies w @ [cbody]"
    and tagged: "label cbody = ''conveyor''"
    and fresh: "length (worldBodies w) \<notin> snd ` set (bodiesMap w)"
  shows "\<exists>n. registeredAs (addConvexBody be processed obj isStat fric air rest w)
                (length (worldBodies w)) n (numOr (conveyor_speed (parameters obj)) 0)
             \<or> length (worldBodies w)
                 \<notin> snd ` set (bodiesMap (addConvexBody be processed obj isStat fric air rest w))"
proof -
  let ?w' = "addConvexBody be processed obj isStat fric air rest w"
  define key where
    "key = (if name obj \<noteq> [] then name obj else ''body-'' @ showNat (length (bodiesMap w)))"
  define speed where "speed = numOr (conveyor_speed (parameters obj)) 0"
  have accepted: "fromVertices be processed"
  proof (rule ccontr)
    assume "\<not> fromVertices be processed"
    with made show False by (simp add: addConvexBody_def)
  qed
  have "cbody = (if isStat \<and> isConveyorObject obj
      then (applyPhysicsProperties (polygonBody processed isStat fric air rest)
              obj processed isStat)\<lparr>label := ''conveyor''\<rparr>
      else applyPhysicsProperties (polygonBody processed isStat fric air rest)
             obj processed isStat)"
    using made accepted by (simp add: addConvexBody_def register_def Let_def)
  with tagged have conveyor: "isStat \<and> isConveyorObject obj"
    by (auto split: if_splits)
  have bm: "bodiesMap ?w' = (if key = ''__proto__'' then bodiesMap w
      else assign key (length (worldBodies w)) (bodiesMap w))"
    using accepted by (simp add: addConvexBody_def register_def Let_def key_def)
  have cp: "conveyorParams ?w' = assign key speed (conveyorParams w)"
    using accepted conveyor
    by (simp add: addConvexBody_def register_def Let_def key_def speed_def)
  show ?thesis
  proof (cases "key = ''__proto__''")
    case True
    with bm fresh show ?thesis by simp
  next
    case False
    with bm cp have "registeredAs ?w' (length (worldBodies w)) key speed"
      by (simp add: registeredAs_def map_of_assign)
    then show ?thesis unfolding speed_def by blast
  qed
qed

lemma registered_new_conveyor:
  assumes sound: "tableSound w"
    and made: "worldBodies (addObject be sx sy obj w) = worldBodies w @ [cbody]"
    and tagged: "label cbody = ''conveyor''"
  shows "\<exists>n. registeredAs (addObject be sx sy obj w) (length (worldBodies w)) n
                (numOr (conveyor_speed (parameters obj)) 0)
             \<or> length (worldBodies w) \<notin> snd ` set (bodiesMap (addObject be sx sy obj w))"
proof -
  let ?processed = "preprocessContour (map (scalePoint be sx sy) (contour obj))"
  let ?w1 = "if role obj = ''static'' then w\<lparr>hasStatic := True\<rparr> else w"
  have fresh: "length (worldBodies w) \<notin> snd ` set (bodiesMap w)"
    using sound by (auto simp: tableSound_def handlesBounded_def list_all_iff)
  show ?thesis
  proof (cases "role obj \<noteq> ''constraint'' \<and> \<not> length (contour obj) < 3
      \<and> \<not> length ?processed < 3 \<and> \<not> is_concave obj")
    case True
    then have eq: "addObject be sx sy obj w = addConvexBody be ?processed obj
        (role obj = ''static'') (numOr (friction_coefficient (parameters obj)) (2 / 10))
        (numOr (air_drag (parameters obj)) 0) (numOr (restitution (parameters obj)) 0) ?w1"
      by (simp add: addObject_def Let_def)
    have same: "bodiesMap ?w1 = bodiesMap w" "worldBodies ?w1 = worldBodies w"
      by simp_all
    from made fresh
      new_conveyor_addConvexBody [of be ?processed obj "role obj = ''static''"
          "numOr (friction_coefficient (parameters obj)) (2 / 10)"
          "numOr (air_drag (parameters obj)) 0" "numOr (restitution (parameters obj)) 0"
          ?w1 cbody, OF _ tagged]
    show ?thesis
      unfolding eq same by simp
  next
    case False
    with made tagged have False
      by (auto simp: addObject_def addTriangleFan_def createConvexHullBody_def Let_def
          split: if_splits)
    then show ?thesis ..
  qed
qed

text \<open>The speed that the hook finds for a conveyor body of the scene.\<close>

lemma conveyorSpeedOf_built:
  assumes made: "worldBodies (addObject be sx sy obj (buildBodies be sx sy before emptyWorld))
                 = worldBodies (buildBodies be sx sy before emptyWorld) @ [cbody]"
      "label cbody = ''conveyor''"
    and cb: "cb = length (worldBodies (buildBodies be sx sy before emptyWorld))"
    and tables: "bodiesMap w = bodiesMap (buildBodies be sx sy (before @ obj # after) emptyWorld)"
      "conveyorParams w = conveyorParams (buildBodies be sx sy (before @ obj # after) emptyWorld)"
  shows "conveyorSpeedOf w cb =
           (if cb \<in> snd ` set (bodiesMap w)
            then numOr (conveyor_speed (parameters obj)) 0 else 0)"
proof -
  let ?w0 = "buildBodies be sx sy before emptyWorld"
  let ?w1 = "addObject be sx sy obj ?w0"
  let ?all = "buildBodies be sx sy (before @ obj # after) emptyWorld"
  let ?v = "numOr (conveyor_speed (parameters obj)) 0"
  have s0: "tableSound ?w0"
    by (simp add: tableSound_buildBodies tableSound_emptyWorld)
  then have s1: "tableSound ?w1" by (rule tableSound_addObject)
  have all: "?all = buildBodies be sx sy after ?w1"
    by (simp add: buildBodies_def)
  have sAll: "tableSound ?all"
    unfolding all using s1 by (rule tableSound_buildBodies)
  from registered_new_conveyor [OF s0 made] obtain n
    where "registeredAs ?w1 cb n ?v \<or> cb \<notin> snd ` set (bodiesMap ?w1)"
    unfolding cb by blast
  moreover have "cb < length (worldBodies ?w1)"
    using made(1) cb by simp
  ultimately have reg: "registeredAs ?all cb n ?v \<or> cb \<notin> snd ` set (bodiesMap ?all)"
    unfolding all using s1 by (intro registered_buildBodies)
  show ?thesis
  proof (cases "cb \<in> snd ` set (bodiesMap w)")
    case True
    with reg tables have r: "map_of (bodiesMap w) n = Some cb"
      "map_of (conveyorParams w) n = Some ?v"
      by (simp_all add: registeredAs_def)
    from r(1) have "(n, cb) \<in> set (bodiesMap w)" by (rule map_of_SomeD)
    moreover from sAll tables have "distinct (map snd (bodiesMap w))"
      by (simp add: tableSound_def)
    ultimately have "find (\<lambda>e. snd e = cb) (bodiesMap w) = Some (n, cb)"
      by (intro find_by_handle)
    with r(2) True show ?thesis
      by (simp add: conveyorSpeedOf_def orElse_def)
  next
    case False
    then have "find (\<lambda>e. snd e = cb) (bodiesMap w) = None"
      by (force simp: find_None_iff)
    with False show ?thesis by (simp add: conveyorSpeedOf_def)
  qed
qed

text \<open>The hook changes nothing but horizontal and angular velocities.\<close>

lemma setMotion_setMotion [simp]: "setMotion a (setMotion b x) = setMotion a x"
  by (simp add: setMotion_def)

lemma setMotion_fields [simp]:
  "label (setMotion a x) = label x" "isStatic (setMotion a x) = isStatic x"
  by (simp_all add: setMotion_def)

lemma sameButMotion_refl: "sameButMotion w w"
  by (simp add: sameButMotion_def)

lemma sameButMotion_length:
  "sameButMotion w w' \<Longrightarrow> length (worldBodies w') = length (worldBodies w)"
  unfolding sameButMotion_def by (metis length_map)

lemma sameButMotion_nth:
  assumes "sameButMotion w w'" and "i < length (worldBodies w)"
  shows "setMotion 0 (worldBodies w' ! i) = setMotion 0 (worldBodies w ! i)"
proof -
  from assms have "i < length (worldBodies w')" by (simp add: sameButMotion_length)
  then have "setMotion 0 (worldBodies w' ! i) = map (setMotion 0) (worldBodies w') ! i"
    by simp
  also have "\<dots> = map (setMotion 0) (worldBodies w) ! i"
    using assms(1) by (simp add: sameButMotion_def)
  also have "\<dots> = setMotion 0 (worldBodies w ! i)"
    using assms(2) by simp
  finally show ?thesis .
qed

lemma sameButMotion_setMotion:
  assumes "sameButMotion w w'" and "i < length (worldBodies w)"
  shows "setMotion a (worldBodies w' ! i) = setMotion a (worldBodies w ! i)"
proof -
  have "setMotion a (worldBodies w' ! i) = setMotion a (setMotion 0 (worldBodies w' ! i))"
    by simp
  also have "\<dots> = setMotion a (setMotion 0 (worldBodies w ! i))"
    using sameButMotion_nth [OF assms] by simp
  finally show ?thesis by simp
qed

lemma sameButMotion_getBody:
  assumes "sameButMotion w w'"
  shows "map_option label (getBody w' h) = map_option label (getBody w h)"
    and "map_option isStatic (getBody w' h) = map_option isStatic (getBody w h)"
proof -
  have "label (worldBodies w' ! i) = label (worldBodies w ! i)
      \<and> isStatic (worldBodies w' ! i) = isStatic (worldBodies w ! i)"
    if "i < length (worldBodies w)" for i
    using sameButMotion_nth [OF assms that] setMotion_fields
    by metis
  then show "map_option label (getBody w' h) = map_option label (getBody w h)"
    "map_option isStatic (getBody w' h) = map_option isStatic (getBody w h)"
    using sameButMotion_length [OF assms]
    by (auto simp: getBody_def split: option.splits)
qed

lemma hasLabel_getBody: "hasLabel w h l \<longleftrightarrow> map_option label (getBody w h) = Some l"
  by (auto simp: hasLabel_def split: option.splits)

lemma sameButMotion_hasLabel:
  "sameButMotion w w' \<Longrightarrow> hasLabel w' h l = hasLabel w h l"
  by (simp add: hasLabel_getBody sameButMotion_getBody)

lemma hookTarget_getBody:
  "hookTarget w pair =
     (let aIsConv = hasLabel w (fst pair) ''conveyor'';
          bIsConv = hasLabel w (snd pair) ''conveyor''
      in if \<not> aIsConv \<and> \<not> bIsConv then None
         else let conveyorBody = (if aIsConv then fst pair else snd pair);
                  otherBody = (if aIsConv then snd pair else fst pair)
              in case (conveyorBody, otherBody, map_option isStatic (getBody w otherBody)) of
                   (Some cb, Some ob, Some static) \<Rightarrow> if static then None else Some (cb, ob)
                 | _ \<Rightarrow> None)"
  by (auto simp: hookTarget_def Let_def split: option.splits)

lemma sameButMotion_hookTarget:
  "sameButMotion w w' \<Longrightarrow> hookTarget w' pair = hookTarget w pair"
  by (simp add: hookTarget_getBody sameButMotion_hasLabel sameButMotion_getBody Let_def)

lemma sameButMotion_conveyorSpeedOf:
  "sameButMotion w w' \<Longrightarrow> conveyorSpeedOf w' cb = conveyorSpeedOf w cb"
  by (auto simp: conveyorSpeedOf_def sameButMotion_def split: option.splits)

lemma hookTarget_inRange:
  "hookTarget w pair = Some (cb, ob) \<Longrightarrow> ob < length (worldBodies w)"
  by (auto simp: hookTarget_def Let_def getBody_def split: if_splits option.splits)

lemma sameButMotion_conveyorStep:
  assumes "sameButMotion w w'"
  shows "sameButMotion w (conveyorStep pair w')"
proof (cases "hookTarget w' pair")
  case None
  with assms show ?thesis by (simp add: conveyorStep_def)
next
  case (Some target)
  obtain cb ob where target: "target = (cb, ob)" by (cases target)
  from Some target have range: "ob < length (worldBodies w')"
    by (simp add: hookTarget_inRange)
  have "map (setMotion 0)
      ((worldBodies w')[ob := setMotion (conveyorSpeedOf w' cb) (worldBodies w' ! ob)])
    = (map (setMotion 0) (worldBodies w'))[ob := setMotion 0 (worldBodies w' ! ob)]"
    by (simp add: map_update)
  also have "\<dots> = map (setMotion 0) (worldBodies w')"
    using range by (simp add: list_update_same_conv)
  finally show ?thesis
    using assms Some target by (simp add: conveyorStep_def sameButMotion_def)
qed

lemma sameButMotion_fold:
  "sameButMotion w w' \<Longrightarrow> sameButMotion w (fold conveyorStep pairs w')"
  by (induction pairs arbitrary: w') (simp_all add: sameButMotion_conveyorStep)

lemma conveyorStep_elsewhere:
  assumes "sameButMotion w w'" and "\<forall>c. hookTarget w pair \<noteq> Some (c, ob)"
  shows "worldBodies (conveyorStep pair w') ! ob = worldBodies w' ! ob"
proof (cases "hookTarget w' pair")
  case None
  then show ?thesis by (simp add: conveyorStep_def)
next
  case (Some target)
  obtain c ob' where target: "target = (c, ob')" by (cases target)
  with Some assms have "ob' \<noteq> ob"
    by (auto simp: sameButMotion_hookTarget)
  with Some target show ?thesis by (simp add: conveyorStep_def)
qed

lemma fold_conveyorStep_elsewhere:
  "sameButMotion w w' \<Longrightarrow> \<forall>p\<in>set rest. \<forall>c. hookTarget w p \<noteq> Some (c, ob) \<Longrightarrow>
   worldBodies (fold conveyorStep rest w') ! ob = worldBodies w' ! ob"
proof (induction rest arbitrary: w')
  case Nil
  then show ?case by simp
next
  case (Cons p rest)
  from Cons.prems have "worldBodies (conveyorStep p w') ! ob = worldBodies w' ! ob"
    by (intro conveyorStep_elsewhere) auto
  moreover from Cons.prems have "sameButMotion w (conveyorStep p w')"
    by (intro sameButMotion_conveyorStep)
  ultimately show ?case using Cons by simp
qed

lemma conveyorStep_target:
  assumes "sameButMotion w w'" and "hookTarget w pair = Some (cb, ob)"
  shows "worldBodies (conveyorStep pair w') ! ob
           = setMotion (conveyorSpeedOf w cb) (worldBodies w ! ob)"
proof -
  from assms have target: "hookTarget w' pair = Some (cb, ob)"
    by (simp add: sameButMotion_hookTarget)
  from assms(2) have range: "ob < length (worldBodies w)"
    by (rule hookTarget_inRange)
  then have "ob < length (worldBodies w')"
    using assms(1) by (simp add: sameButMotion_length)
  with target have "worldBodies (conveyorStep pair w') ! ob
      = setMotion (conveyorSpeedOf w' cb) (worldBodies w' ! ob)"
    by (simp add: conveyorStep_def)
  with assms(1) range show ?thesis
    by (simp add: sameButMotion_conveyorSpeedOf sameButMotion_setMotion)
qed

text \<open>What a tick leaves of the pair that acts last on a body.\<close>

lemma onBeforeUpdate_last_target:
  assumes "hookTarget w pair = Some (cb, ob)"
    and "\<forall>p\<in>set rest. \<forall>c. hookTarget w p \<noteq> Some (c, ob)"
  shows "getBody (onBeforeUpdate (earlier @ pair # rest) w) (Some ob)
           = Some (setMotion (conveyorSpeedOf w cb) (worldBodies w ! ob))"
proof -
  let ?w1 = "fold conveyorStep earlier w"
  let ?w2 = "conveyorStep pair ?w1"
  have s1: "sameButMotion w ?w1"
    by (simp add: sameButMotion_fold sameButMotion_refl)
  then have s2: "sameButMotion w ?w2" by (rule sameButMotion_conveyorStep)
  have final: "onBeforeUpdate (earlier @ pair # rest) w = fold conveyorStep rest ?w2"
    by (simp add: onBeforeUpdate_def)
  have "sameButMotion w (fold conveyorStep rest ?w2)"
    using s2 by (rule sameButMotion_fold)
  then have len: "length (worldBodies (fold conveyorStep rest ?w2)) = length (worldBodies w)"
    by (rule sameButMotion_length)
  have "worldBodies (fold conveyorStep rest ?w2) ! ob = worldBodies ?w2 ! ob"
    using s2 assms(2) by (rule fold_conveyorStep_elsewhere)
  also have "\<dots> = setMotion (conveyorSpeedOf w cb) (worldBodies w ! ob)"
    using s1 assms(1) by (rule conveyorStep_target)
  finally show ?thesis
    using hookTarget_inRange [OF assms(1)] len by (simp add: final getBody_def)
qed

lemma conveyorWorld_bodies:
  "worldBodies conveyorWorld =
      [(polygonBody [pt 0 20, pt 40 20, pt 40 24, pt 0 24] True (2 / 10) 0 0)
         \<lparr>label := ''conveyor''\<rparr>,
       (polygonBody squareContour False (2 / 10) 0 0)
         \<lparr>velocity := pt 7 2, angularVelocity := 1\<rparr>]"
  by (simp add: conveyorWorld_def beltObject_def boxObject_def body_defs contour_defs
      geometry_defs Let_def)

lemma namesakeWorld_built:
  "namesakeWorld = emptyWorld\<lparr>
     worldBodies :=
      [(polygonBody [pt 0 20, pt 40 20, pt 40 24, pt 0 24] True (2 / 10) 0 0)
         \<lparr>label := ''conveyor''\<rparr>,
       (polygonBody squareContour False (2 / 10) 0 0)
         \<lparr>velocity := pt 7 2, angularVelocity := 1\<rparr>],
     bodiesMap := [(''belt'', 1)], conveyorParams := [(''belt'', 3)], hasStatic := True\<rparr>"
  by (simp add: namesakeWorld_def namesakeObject_def beltObject_def boxObject_def body_defs
      contour_defs geometry_defs Let_def emptyWorld_def)

lemma twoBeltWorld_built:
  "twoBeltWorld = emptyWorld\<lparr>
     worldBodies :=
      [(polygonBody [pt 0 20, pt 40 20, pt 40 24, pt 0 24] True (2 / 10) 0 0)
         \<lparr>label := ''conveyor''\<rparr>,
       (polygonBody [pt 0 30, pt 40 30, pt 40 34, pt 0 34] True (2 / 10) 0 0)
         \<lparr>label := ''conveyor''\<rparr>,
       (polygonBody squareContour False (2 / 10) 0 0)
         \<lparr>velocity := pt 7 2, angularVelocity := 1\<rparr>],
     bodiesMap := [(''belt'', 0), (''ramp'', 1), (''box'', 2)],
     conveyorParams := [(''belt'', 3), (''ramp'', 5)], hasStatic := True\<rparr>"
  by (simp add: twoBeltWorld_def fastBeltObject_def beltObject_def boxObject_def body_defs
      contour_defs geometry_defs Let_def emptyWorld_def)

text \<open>
  Claim C1, as stated, fails in two ways. In a scene where a box is given the name of
  the belt declared before it, \<^verbatim>\<open>bodiesMap\<close> holds the box under that name and the
  belt's body no longer: for the pair of the belt and the box the hook finds no speed
  and sets the horizontal velocity of the box to 0, although the belt is configured with
  speed 3. In a scene of two belts of speeds 3 and 5 that both touch one box, the tick
  leaves the box with the speed 5 of the belt whose pair comes last in the list, not
  with the speed 3 of the first pair's belt.
\<close>

theorem conveyor_hook_counterexample:
  "numOr (conveyor_speed (parameters beltObject)) 0 = 3
   \<and> hasLabel namesakeWorld (Some 0) ''conveyor''
   \<and> \<not> hasLabel namesakeWorld (Some 1) ''conveyor''
   \<and> map_option isStatic (getBody namesakeWorld (Some 1)) = Some False
   \<and> map_option velocity (getBody namesakeWorld (Some 1)) = Some (pt 7 2)
   \<and> map_option velocity (getBody (onBeforeUpdate [(Some 0, Some 1)] namesakeWorld) (Some 1))
       = Some (pt 0 2)
   \<and> hasLabel twoBeltWorld (Some 0) ''conveyor''
   \<and> hasLabel twoBeltWorld (Some 1) ''conveyor''
   \<and> \<not> hasLabel twoBeltWorld (Some 2) ''conveyor''
   \<and> map_option isStatic (getBody twoBeltWorld (Some 2)) = Some False
   \<and> map_option velocity
        (getBody (onBeforeUpdate [(Some 0, Some 2), (Some 1, Some 2)] twoBeltWorld) (Some 2))
       = Some (pt 5 2)"
  by (simp add: namesakeWorld_built twoBeltWorld_built emptyWorld_def hook_defs
      onBeforeUpdate_def polygonBody_def newBody_def pt_def beltObject_def mkObject_def
      noParameters_def numOr_def orElse_def)

text \<open>
  Claim C1, amended. Let \<open>cb\<close> be the body that the object loop created for the object
  \<open>obj\<close> and tagged \<open>conveyor\<close>. On any tick, whatever the velocities in the world
  \<open>w\<close> are by then, take a contact pair of \<open>cb\<close> and a non-static body \<open>ob\<close> that is no
  conveyor, such that no later pair of the tick's list is one on which the hook acts
  for \<open>ob\<close>. After the hook has run over the whole list, the horizontal velocity of
  \<open>ob\<close> is the speed configured for \<open>obj\<close> (its \<open>conveyor_speed\<close>, or 0 when the
  object is a conveyor by its element type only) if \<^verbatim>\<open>bodiesMap\<close> still holds \<open>cb\<close>,
  and 0 if it does not (a later object was registered under the same name, or the name
  is \<^verbatim>\<open>__proto__\<close>); its vertical velocity is the one from before the tick, and its
  angular velocity is 0; nothing else of the body changes.
\<close>

theorem conveyor_hook_enforces_speed:
  assumes made: "worldBodies (addObject be sx sy obj (buildBodies be sx sy before emptyWorld))
                 = worldBodies (buildBodies be sx sy before emptyWorld) @ [cbody]"
      "label cbody = ''conveyor''"
    and cb: "cb = length (worldBodies (buildBodies be sx sy before emptyWorld))"
    and tables: "bodiesMap w = bodiesMap (buildBodies be sx sy (before @ obj # after) emptyWorld)"
      "conveyorParams w = conveyorParams (buildBodies be sx sy (before @ obj # after) emptyWorld)"
    and conveyor: "hasLabel w (Some cb) ''conveyor''"
    and other: "getBody w (Some ob) = Some other" "\<not> isStatic other"
      "label other \<noteq> ''conveyor''"
    and pair: "pair = (Some cb, Some ob) \<or> pair = (Some ob, Some cb)"
    and last: "\<forall>p\<in>set rest. \<forall>c. hookTarget w p \<noteq> Some (c, ob)"
  shows "getBody (onBeforeUpdate (earlier @ pair # rest) w) (Some ob) =
           Some (other\<lparr>velocity :=
                         \<lparr>px = (if cb \<in> snd ` set (bodiesMap w)
                                 then numOr (conveyor_speed (parameters obj)) 0 else 0),
                          py = py (velocity other)\<rparr>,
                        angularVelocity := 0\<rparr>)"
proof -
  have otherLabel: "\<not> hasLabel w (Some ob) ''conveyor''"
    using other by (simp add: hasLabel_def)
  have at: "worldBodies w ! ob = other"
    using other(1) by (auto simp: getBody_def split: if_splits)
  have target: "hookTarget w pair = Some (cb, ob)"
    using pair conveyor otherLabel other by (auto simp: hookTarget_def Let_def)
  from onBeforeUpdate_last_target [OF target last, of earlier]
    conveyorSpeedOf_built [OF made cb tables]
  show ?thesis
    by (simp add: at setMotion_def)
qed

theorem conveyor_hook_enforces_speed_witness:
  "velocity (worldBodies conveyorWorld ! 1) = pt 7 2
   \<and> angularVelocity (worldBodies conveyorWorld ! 1) = 1
   \<and> getBody (onBeforeUpdate [(Some 1, None), (Some 0, Some 1), (Some 1, Some 1)] conveyorWorld)
        (Some 1) =
       Some ((worldBodies conveyorWorld ! 1)\<lparr>velocity := pt 3 2, angularVelocity := 0\<rparr>)"
proof -
  note bodies = conveyorWorld_bodies
  have made: "worldBodies (addObject standInBackend 1 1 beltObject
        (buildBodies standInBackend 1 1 [] emptyWorld))
      = worldBodies (buildBodies standInBackend 1 1 [] emptyWorld) @ [worldBodies conveyorWorld ! 0]"
    "label (worldBodies conveyorWorld ! 0) = ''conveyor''"
    unfolding bodies
    by (simp_all add: beltObject_def body_defs contour_defs geometry_defs Let_def)
  have cb: "0 = length (worldBodies (buildBodies standInBackend 1 1 [] emptyWorld))"
    by (simp add: buildBodies_def emptyWorld_def)
  have tables:
    "bodiesMap conveyorWorld
       = bodiesMap (buildBodies standInBackend 1 1 ([] @ beltObject # [boxObject]) emptyWorld)"
    "conveyorParams conveyorWorld
       = conveyorParams (buildBodies standInBackend 1 1 ([] @ beltObject # [boxObject]) emptyWorld)"
    by (simp_all add: conveyorWorld_def)
  have conveyor: "hasLabel conveyorWorld (Some 0) ''conveyor''"
    by (simp add: hasLabel_def getBody_def bodies polygonBody_def newBody_def)
  have other: "getBody conveyorWorld (Some 1) = Some (worldBodies conveyorWorld ! 1)"
    "\<not> isStatic (worldBodies conveyorWorld ! 1)"
    "label (worldBodies conveyorWorld ! 1) \<noteq> ''conveyor''"
    by (simp_all add: getBody_def bodies polygonBody_def newBody_def)
  have pair: "(Some 0, Some 1) = (Some 0, Some (1::nat)) \<or> (Some 0, Some 1) = (Some (1::nat), Some 0)"
    by simp
  have last: "\<forall>p\<in>set [(Some 1, Some 1)]. \<forall>c. hookTarget conveyorWorld p \<noteq> Some (c, 1)"
    by (simp add: hookTarget_def hasLabel_def getBody_def bodies polygonBody_def newBody_def)
  have held: "bodiesMap conveyorWorld = [(''belt'', 0), (''box'', 1)]"
    by (simp add: conveyorWorld_def beltObject_def boxObject_def body_defs contour_defs
        geometry_defs Let_def emptyWorld_def)
  have speed: "numOr (conveyor_speed (parameters beltObject)) 0 = 3"
    by (simp add: beltObject_def numOr_def noParameters_def mkObject_def)
  show ?thesis
    using conveyor_hook_enforces_speed
      [where before = "[]" and earlier = "[(Some 1, None)]",
        OF made cb tables conveyor other pair last]
    by (simp add: speed held bodies pt_def polygonBody_def newBody_def)
qed

subsection \<open>Triangle fan and shoelace area\<close>

lemma upt_0_3: "[0..<3] = [0, 1, 2]"
  by code_simp

lemma upt_0_4: "[0..<4] = [0, 1, 2, 3]"
  by code_simp

lemma upt_0_6: "[0..<6] = [0, 1, 2, 3, 4, 5]"
  by code_simp

lemma shoelaceSum_triangle:
  "shoelaceSum [a, b, c] = wedge a b + wedge b c + wedge c a"
  by (simp add: shoelaceSum_def shoelaceTerm_def wedge_def upt_0_3 Let_def)

lemma shoelaceSum_lShape: "shoelaceSum lShape = 504"
  by (simp add: lShape_def shoelaceSum_def shoelaceTerm_def upt_0_6 pt_def)

lemma centroid_lShape: "calculateCentroid lShape = pt 10 10"
  by (simp add: lShape_def calculateCentroid_def pt_def)

text \<open>
  Claim C8, as stated, fails on an L-shaped hexagon, a simple polygon: its shoelace area
  is 252, while the areas of its six fan triangles add up to 396. The vertex mean
  \<open>(10, 10)\<close> lies outside the polygon, and two of the triangles are turned the other
  way round. All numbers involved are integers, so rounding plays no part.
\<close>

theorem fan_area_counterexample:
  "polygonArea lShape = 252 \<and> fanAreaSum lShape = 396"
proof -
  have fan: "decomposeToTriangleFan lShape =
      [[pt 10 10, pt 0 0, pt 24 0], [pt 10 10, pt 24 0, pt 24 6], [pt 10 10, pt 24 6, pt 6 6],
       [pt 10 10, pt 6 6, pt 6 24], [pt 10 10, pt 6 24, pt 0 24], [pt 10 10, pt 0 24, pt 0 0]]"
    unfolding decomposeToTriangleFan_def centroid_lShape
    by (simp add: lShape_def upt_0_6 fanTriangle_def pt_def)
  have "fanAreaSum lShape = 396"
    unfolding fanAreaSum_def fan
    by (simp add: polygonArea_def shoelaceSum_triangle wedge_def pt_def)
  then show ?thesis
    by (simp add: polygonArea_def shoelaceSum_lShape)
qed

lemma sum_list_cyclic_shift:
  "(\<Sum>i\<leftarrow>[0..<n]. f ((i + 1) mod n)) = (\<Sum>i\<leftarrow>[0..<n]. (f i :: real))"
proof (cases n)
  case 0
  then show ?thesis by simp
next
  case (Suc m)
  have "(\<Sum>i\<leftarrow>[0..<Suc m]. f ((i + 1) mod Suc m)) = (\<Sum>i = 0..<Suc m. f ((i + 1) mod Suc m))"
    by (simp add: interv_sum_list_conv_sum_set_nat)
  also have "\<dots> = (\<Sum>i = 0..<m. f (Suc i)) + f 0"
    by simp
  also have "\<dots> = (\<Sum>i = 0..<Suc m. f i)"
    using sum.atLeast0_lessThan_Suc_shift [of f m] by (simp add: comp_def)
  also have "\<dots> = (\<Sum>i\<leftarrow>[0..<Suc m]. f i)"
    by (simp add: interv_sum_list_conv_sum_set_nat)
  finally show ?thesis using Suc by simp
qed

lemma shoelaceSum_fanTriangle:
  "shoelaceSum (fanTriangle c ps i) =
     wedge c (ps ! i) + shoelaceTerm ps i + wedge (ps ! ((i + 1) mod length ps)) c"
  by (simp add: fanTriangle_def shoelaceSum_triangle shoelaceTerm_def wedge_def Let_def)

lemma wedge_swap: "wedge a b = - wedge b a"
  by (simp add: wedge_def)

lemma fan_signed_sum:
  "(\<Sum>i\<leftarrow>[0..<length ps]. shoelaceSum (fanTriangle c ps i)) = shoelaceSum ps"
proof -
  have "(\<Sum>i\<leftarrow>[0..<length ps]. shoelaceSum (fanTriangle c ps i))
      = (\<Sum>i\<leftarrow>[0..<length ps]. wedge c (ps ! i))
        + (\<Sum>i\<leftarrow>[0..<length ps]. shoelaceTerm ps i)
        + (\<Sum>i\<leftarrow>[0..<length ps]. wedge (ps ! ((i + 1) mod length ps)) c)"
    by (simp add: shoelaceSum_fanTriangle sum_list_addf)
  also have "(\<Sum>i\<leftarrow>[0..<length ps]. wedge (ps ! ((i + 1) mod length ps)) c)
      = (\<Sum>i\<leftarrow>[0..<length ps]. wedge (ps ! i) c)"
    by (rule sum_list_cyclic_shift [where f = "\<lambda>k. wedge (ps ! k) c"])
  also have "\<dots> = - (\<Sum>i\<leftarrow>[0..<length ps]. wedge c (ps ! i))"
    by (subst wedge_swap) (simp add: uminus_sum_list_map comp_def)
  finally show ?thesis by (simp add: shoelaceSum_def)
qed

lemma sum_list_abs_nonneg:
  "list_all (\<lambda>x. 0 \<le> x) xs \<Longrightarrow> (\<Sum>x\<leftarrow>xs. \<bar>x\<bar> / 2) = \<bar>sum_list xs\<bar> / (2 :: real)"
proof (induction xs)
  case Nil
  then show ?case by simp
next
  case (Cons x xs)
  then have "0 \<le> sum_list xs" by (simp add: list_all_iff sum_list_nonneg)
  with Cons show ?case by (simp add: add_divide_distrib)
qed

lemma sum_list_abs_nonpos:
  "list_all (\<lambda>x. x \<le> 0) xs \<Longrightarrow> (\<Sum>x\<leftarrow>xs. \<bar>x\<bar> / 2) = \<bar>sum_list xs\<bar> / (2 :: real)"
proof (induction xs)
  case Nil
  then show ?case by simp
next
  case (Cons x xs)
  then have "sum_list xs \<le> 0" by (simp add: list_all_iff sum_list_nonpos)
  with Cons show ?case by (simp add: add_divide_distrib)
qed

text \<open>
  Claim C8, amended. For any polygon with at least 3 vertices all of whose fan triangles
  \<open>(C, P[i], P[i + 1 mod n])\<close> are turned the same way round (the polygon is star-shaped
  about the vertex mean \<open>C\<close>), the areas of the fan triangles add up to the polygon's
  shoelace area, in exact arithmetic.
\<close>

theorem fan_area_equals_shoelace_area:
  assumes "3 \<le> length ps"
    and "list_all (\<lambda>tri. 0 \<le> shoelaceSum tri) (decomposeToTriangleFan ps)
         \<or> list_all (\<lambda>tri. shoelaceSum tri \<le> 0) (decomposeToTriangleFan ps)"
  shows "fanAreaSum ps = polygonArea ps"
proof -
  let ?signed = "map (\<lambda>i. shoelaceSum (fanTriangle (calculateCentroid ps) ps i)) [0..<length ps]"
  have fan: "decomposeToTriangleFan ps
      = map (fanTriangle (calculateCentroid ps) ps) [0..<length ps]"
    using assms(1) by (simp add: decomposeToTriangleFan_def)
  have total: "sum_list ?signed = shoelaceSum ps"
    by (rule fan_signed_sum)
  have areas: "fanAreaSum ps = (\<Sum>x\<leftarrow>?signed. \<bar>x\<bar> / 2)"
    by (simp add: fanAreaSum_def fan polygonArea_def comp_def)
  from assms(2) have "list_all (\<lambda>x. 0 \<le> x) ?signed \<or> list_all (\<lambda>x. x \<le> 0) ?signed"
    by (simp add: fan list_all_iff)
  then have "(\<Sum>x\<leftarrow>?signed. \<bar>x\<bar> / 2) = \<bar>sum_list ?signed\<bar> / 2"
    using sum_list_abs_nonneg sum_list_abs_nonpos by blast
  with areas total show ?thesis by (simp add: polygonArea_def)
qed

theorem fan_area_equals_shoelace_area_witness:
  "3 \<le> length squareContour
   \<and> list_all (\<lambda>tri. 0 \<le> shoelaceSum tri) (decomposeToTriangleFan squareContour)
   \<and> fanAreaSum squareContour = 100 \<and> polygonArea squareContour = 100"
proof -
  have len: "3 \<le> length squareContour" by (simp add: squareContour_def)
  have centre: "calculateCentroid squareContour = pt 5 5"
    by (simp add: squareContour_def calculateCentroid_def pt_def)
  have fan: "decomposeToTriangleFan squareContour =
      [[pt 5 5, pt 0 0, pt 10 0], [pt 5 5, pt 10 0, pt 10 10],
       [pt 5 5, pt 10 10, pt 0 10], [pt 5 5, pt 0 10, pt 0 0]]"
    unfolding decomposeToTriangleFan_def centre
    by (simp add: squareContour_def upt_0_4 fanTriangle_def pt_def)
  have pos: "list_all (\<lambda>tri. 0 \<le> shoelaceSum tri) (decomposeToTriangleFan squareContour)"
    unfolding fan by (simp add: shoelaceSum_triangle wedge_def pt_def)
  have area: "polygonArea squareContour = 100"
    by (simp add: squareContour_def polygonArea_def shoelaceSum_def shoelaceTerm_def
        upt_0_4 pt_def)
  from fan_area_equals_shoelace_area [OF len disjI1 [OF pos]] len pos area
  show ?thesis by simp
qed

subsection \<open>The convex hull: the order of the scan\<close>

lemma point_eqI: "px a = px b \<Longrightarrow> py a = py b \<Longrightarrow> a = (b :: point)"
  by (cases a; cases b) simp

lemma pointLeq_refl: "pointLeq a a"
  by (simp add: pointLeq_def)

lemma pointLeq_total: "pointLeq a b \<or> pointLeq b a"
  by (auto simp: pointLeq_def)

lemma pointLeq_trans: "pointLeq a b \<Longrightarrow> pointLeq b c \<Longrightarrow> pointLeq a c"
  by (auto simp: pointLeq_def)

lemma pointLeq_antisym: "pointLeq a b \<Longrightarrow> pointLeq b a \<Longrightarrow> a = b"
  by (rule point_eqI) (auto simp: pointLeq_def)

lemma set_insertPoint: "set (insertPoint v xs) = insert v (set xs)"
  by (induction xs) auto

lemma length_insertPoint: "length (insertPoint v xs) = Suc (length xs)"
  by (induction xs) auto

lemma sorted_insertPoint:
  "sorted_wrt pointLeq xs \<Longrightarrow> sorted_wrt pointLeq (insertPoint v xs)"
proof (induction xs)
  case Nil
  then show ?case by simp
next
  case (Cons u xs)
  show ?case
  proof (cases "pointLeq v u")
    case True
    with Cons.prems show ?thesis by (auto intro: pointLeq_trans)
  next
    case False
    then have "pointLeq u v" using pointLeq_total by blast
    with False Cons show ?thesis by (auto simp: set_insertPoint)
  qed
qed

lemma set_sortPoints: "set (sortPoints vs) = set vs"
  unfolding sortPoints_def by (induction vs) (simp_all add: set_insertPoint)

lemma length_sortPoints: "length (sortPoints vs) = length vs"
  unfolding sortPoints_def by (induction vs) (simp_all add: length_insertPoint)

lemma sorted_sortPoints: "sorted_wrt pointLeq (sortPoints vs)"
  unfolding sortPoints_def by (induction vs) (simp_all add: sorted_insertPoint)

subsection \<open>Turns of vectors that point to the right\<close>

text \<open>
  For vectors that point to the right in the order of the scan, turning left is
  transitive: the identity \<open>(u \<times> z) w = (u \<times> w) z + (w \<times> z) u\<close> is read in the first
  component.
\<close>

lemma turn_trans:
  fixes u1 u2 w1 w2 z1 z2 :: real
  assumes u: "0 < u1 \<or> (u1 = 0 \<and> 0 \<le> u2)"
    and w: "0 < w1 \<or> (w1 = 0 \<and> 0 < w2)"
    and z: "0 < z1 \<or> (z1 = 0 \<and> 0 \<le> z2)"
    and uw: "0 \<le> u1 * w2 - u2 * w1"
    and wz: "0 \<le> w1 * z2 - w2 * z1"
  shows "0 \<le> u1 * z2 - u2 * z1"
proof (cases "0 < w1")
  case True
  have "0 \<le> u1" "0 \<le> z1" using u z by auto
  then have "0 \<le> (u1 * w2 - u2 * w1) * z1 + (w1 * z2 - w2 * z1) * u1"
    using uw wz by simp
  also have "\<dots> = (u1 * z2 - u2 * z1) * w1" by (simp add: algebra_simps)
  finally show ?thesis using True by (simp add: zero_le_mult_iff)
next
  case False
  with w have w1: "w1 = 0" and w2: "0 < w2" by auto
  from wz w1 have "0 \<le> - (w2 * z1)" by simp
  then have "w2 * z1 \<le> 0" by simp
  with w2 have "z1 \<le> 0" by (simp add: mult_le_0_iff)
  with z have z1: "z1 = 0" and z2: "0 \<le> z2" by auto
  from uw w1 have "0 \<le> u1 * w2" by simp
  with w2 have "0 \<le> u1" by (simp add: zero_le_mult_iff)
  with z1 z2 show ?thesis by simp
qed

lemma turn_trans_strict:
  fixes u1 u2 w1 w2 z1 z2 :: real
  assumes u: "0 < u1 \<or> (u1 = 0 \<and> 0 \<le> u2)"
    and w: "0 < w1 \<or> (w1 = 0 \<and> 0 \<le> w2)"
    and z: "0 < z1 \<or> (z1 = 0 \<and> 0 \<le> z2)"
    and uw: "0 < u1 * w2 - u2 * w1"
    and wz: "0 < w1 * z2 - w2 * z1"
  shows "0 < u1 * z2 - u2 * z1"
proof (cases "0 < w1")
  case True
  have nonneg: "0 \<le> u1" "0 \<le> z1" using u z by auto
  have "0 < u1 \<or> 0 < z1"
  proof (rule ccontr)
    assume "\<not> (0 < u1 \<or> 0 < z1)"
    with nonneg have "u1 = 0" "z1 = 0" by auto
    with u have "0 \<le> u2" by auto
    with True have "0 \<le> u2 * w1" by simp
    with uw \<open>u1 = 0\<close> show False by simp
  qed
  then have "0 < (u1 * w2 - u2 * w1) * z1 + (w1 * z2 - w2 * z1) * u1"
  proof
    assume "0 < u1"
    then have "0 < (w1 * z2 - w2 * z1) * u1" using wz by simp
    moreover have "0 \<le> (u1 * w2 - u2 * w1) * z1" using uw nonneg by simp
    ultimately show ?thesis by linarith
  next
    assume "0 < z1"
    then have "0 < (u1 * w2 - u2 * w1) * z1" using uw by simp
    moreover have "0 \<le> (w1 * z2 - w2 * z1) * u1" using wz nonneg by simp
    ultimately show ?thesis by linarith
  qed
  also have "\<dots> = (u1 * z2 - u2 * z1) * w1" by (simp add: algebra_simps)
  finally show ?thesis using True by (simp add: zero_less_mult_iff)
next
  case False
  with w have w1: "w1 = 0" and w2: "0 \<le> w2" by auto
  from wz w1 have "w2 * z1 < 0" by simp
  with w2 have "z1 < 0" by (auto simp: mult_less_0_iff)
  with z show ?thesis by auto
qed

subsection \<open>Four points in the order of the scan\<close>

lemma cross3_same [simp]: "cross3 a b b = 0" "cross3 a b a = 0" "cross3 a a b = 0"
  by (simp_all add: cross3_def)

lemma cross3_swap: "cross3 b a p = - cross3 a b p"
  by (simp add: cross3_def algebra_simps)

text \<open>A point beyond a left turn lies left of the edge before the turn.\<close>

lemma left_of_earlier_edge:
  assumes "pointLeq a b" "pointLeq b c" "pointLeq c v"
    and "0 < cross3 a b c" "0 < cross3 b c v"
  shows "0 < cross3 a b v"
proof -
  have "0 < (px b - px a) * (py v - py c) - (py b - py a) * (px v - px c)"
  proof (rule turn_trans_strict [where ?w1.0 = "px c - px b" and ?w2.0 = "py c - py b"])
    show "0 < px b - px a \<or> (px b - px a = 0 \<and> 0 \<le> py b - py a)"
      using assms(1) by (auto simp: pointLeq_def)
    show "0 < px c - px b \<or> (px c - px b = 0 \<and> 0 \<le> py c - py b)"
      using assms(2) by (auto simp: pointLeq_def)
    show "0 < px v - px c \<or> (px v - px c = 0 \<and> 0 \<le> py v - py c)"
      using assms(3) by (auto simp: pointLeq_def)
    show "0 < (px b - px a) * (py c - py b) - (py b - py a) * (px c - px b)"
      using assms(4) by (simp add: cross3_def algebra_simps)
    show "0 < (px c - px b) * (py v - py c) - (py c - py b) * (px v - px c)"
      using assms(5) by (simp add: cross3_def algebra_simps)
  qed
  moreover have "cross3 a b v = cross3 a b c
      + ((px b - px a) * (py v - py c) - (py b - py a) * (px v - px c))"
    by (simp add: cross3_def algebra_simps)
  ultimately show ?thesis using assms(4) by linarith
qed

text \<open>When the new point turns left at the top edge, the points up to the top lie left
  of the new edge.\<close>

lemma left_of_new_edge:
  assumes "pointLeq p b" "pointLeq a b" "pointLeq b v"
    and "0 \<le> cross3 a b p" "0 < cross3 a b v"
  shows "0 \<le> cross3 b v p"
proof -
  have nonzero: "px b - px a \<noteq> 0 \<or> py b - py a \<noteq> 0"
  proof (rule ccontr)
    assume "\<not> (px b - px a \<noteq> 0 \<or> py b - py a \<noteq> 0)"
    then have "cross3 a b v = 0" by (simp add: cross3_def)
    with assms(5) show False by simp
  qed
  have "0 \<le> (px b - px p) * (py v - py b) - (py b - py p) * (px v - px b)"
  proof (rule turn_trans [where ?w1.0 = "px b - px a" and ?w2.0 = "py b - py a"])
    show "0 < px b - px p \<or> (px b - px p = 0 \<and> 0 \<le> py b - py p)"
      using assms(1) by (auto simp: pointLeq_def)
    show "0 < px b - px a \<or> (px b - px a = 0 \<and> 0 < py b - py a)"
      using assms(2) nonzero by (auto simp: pointLeq_def)
    show "0 < px v - px b \<or> (px v - px b = 0 \<and> 0 \<le> py v - py b)"
      using assms(3) by (auto simp: pointLeq_def)
    show "0 \<le> (px b - px p) * (py b - py a) - (py b - py p) * (px b - px a)"
      using assms(4) by (simp add: cross3_def algebra_simps)
    show "0 \<le> (px b - px a) * (py v - py b) - (py b - py a) * (px v - px b)"
      using assms(5) by (simp add: cross3_def algebra_simps)
  qed
  then show ?thesis by (simp add: cross3_def algebra_simps)
qed

text \<open>When the top is popped, the points between the new top and the old one lie left
  of the edge from the new top to the new point.\<close>

lemma left_after_pop_between:
  assumes "pointLeq a p" "pointLeq p b" "pointLeq b v"
    and "0 \<le> cross3 a b p" "cross3 a b v \<le> 0"
  shows "0 \<le> cross3 a v p"
proof (cases "a = b")
  case True
  with assms(1,2) have "p = a" by (simp add: pointLeq_antisym)
  then show ?thesis by simp
next
  case False
  have ab: "pointLeq a b" using assms(1,2) by (rule pointLeq_trans)
  then have av: "pointLeq a v" using assms(3) by (rule pointLeq_trans)
  have nonzero: "px b - px a \<noteq> 0 \<or> py b - py a \<noteq> 0"
    using False point_eqI [of b a] by auto
  have "0 \<le> (px v - px a) * (py p - py a) - (py v - py a) * (px p - px a)"
  proof (rule turn_trans [where ?w1.0 = "px b - px a" and ?w2.0 = "py b - py a"])
    show "0 < px v - px a \<or> (px v - px a = 0 \<and> 0 \<le> py v - py a)"
      using av by (auto simp: pointLeq_def)
    show "0 < px b - px a \<or> (px b - px a = 0 \<and> 0 < py b - py a)"
      using ab nonzero by (auto simp: pointLeq_def)
    show "0 < px p - px a \<or> (px p - px a = 0 \<and> 0 \<le> py p - py a)"
      using assms(1) by (auto simp: pointLeq_def)
    show "0 \<le> (px v - px a) * (py b - py a) - (py v - py a) * (px b - px a)"
      using assms(5) by (simp add: cross3_def algebra_simps)
    show "0 \<le> (px b - px a) * (py p - py a) - (py b - py a) * (px p - px a)"
      using assms(4) by (simp add: cross3_def algebra_simps)
  qed
  then show ?thesis by (simp add: cross3_def algebra_simps)
qed

lemma left_after_pop_beyond:
  assumes "0 \<le> cross3 b v p" "0 \<le> cross3 a b p" "cross3 a b v \<le> 0"
  shows "0 \<le> cross3 a v p"
proof -
  have "cross3 a v p = cross3 b v p - cross3 a b v + cross3 a b p"
    by (simp add: cross3_def algebra_simps)
  with assms show ?thesis by linarith
qed

subsection \<open>The stack of the scan\<close>

lemma popWhile_suffix: "\<exists>popped. st = popped @ popWhile st v"
proof (induction st v rule: popWhile.induct)
  case (1 b a rest v)
  show ?case
  proof (cases "cross3 a b v \<le> 0")
    case True
    with 1 obtain popped where "a # rest = popped @ popWhile (a # rest) v" by blast
    then have "b # a # rest = (b # popped) @ popWhile (a # rest) v" by simp
    with True show ?thesis by (metis popWhile.simps(1))
  next
    case False
    then show ?thesis by (metis append_Nil popWhile.simps(1))
  qed
qed simp_all

lemma popWhile_nonempty: "st \<noteq> [] \<Longrightarrow> popWhile st v \<noteq> []"
  by (induction st v rule: popWhile.induct) auto

lemma last_popWhile: "last (popWhile st v) = last st"
  by (induction st v rule: popWhile.induct) auto

lemma popWhile_top: "popWhile st v = b # a # rest \<Longrightarrow> 0 < cross3 a b v"
  by (induction st v rule: popWhile.induct) (auto split: if_splits)

lemma turnsLeft_tl: "turnsLeft (x # st) \<Longrightarrow> turnsLeft st"
  by (cases st rule: turnsLeft.cases) auto

lemma turnsLeft_suffix: "turnsLeft (popped @ st) \<Longrightarrow> turnsLeft st"
  by (induction popped) (auto dest: turnsLeft_tl)

lemma edgesLeft_tl: "edgesLeft P (x # st) \<Longrightarrow> edgesLeft P st"
  by (cases st) auto

lemma edgesLeft_suffix: "edgesLeft P (popped @ st) \<Longrightarrow> edgesLeft P st"
  by (induction popped) (auto dest: edgesLeft_tl)

lemma edgesLeft_insert:
  "edgesLeft (insert v P) st \<longleftrightarrow> edgesLeft {v} st \<and> edgesLeft P st"
  by (induction P st rule: edgesLeft.induct) auto

text \<open>The inner loop keeps the points that come after the top left of the edge from
  the top to the new point.\<close>

lemma popWhile_beyond:
  assumes "sorted_wrt (\<lambda>x y. pointLeq y x) st" "edgesLeft P st" "st \<noteq> []"
    and "pointLeq (hd st) v"
    and "\<forall>p\<in>P. pointLeq (hd st) p \<longrightarrow> 0 \<le> cross3 (hd st) v p"
  shows "\<forall>p\<in>P. pointLeq (hd (popWhile st v)) p \<longrightarrow> 0 \<le> cross3 (hd (popWhile st v)) v p"
  using assms
proof (induction st v rule: popWhile.induct)
  case (1 b a rest v)
  show ?case
  proof (cases "cross3 a b v \<le> 0")
    case False
    with 1 show ?thesis by simp
  next
    case True
    from "1.prems" have ab: "pointLeq a b" and bv: "pointLeq b v"
      and left: "\<forall>p\<in>P. 0 \<le> cross3 a b p"
      and beyond: "\<forall>p\<in>P. pointLeq b p \<longrightarrow> 0 \<le> cross3 b v p"
      by simp_all
    have "\<forall>p\<in>P. pointLeq a p \<longrightarrow> 0 \<le> cross3 a v p"
    proof (intro ballI impI)
      fix p assume p: "p \<in> P" and ap: "pointLeq a p"
      show "0 \<le> cross3 a v p"
      proof (cases "pointLeq b p")
        case True
        with beyond p have "0 \<le> cross3 b v p" by blast
        moreover from left p have "0 \<le> cross3 a b p" by blast
        ultimately show ?thesis using \<open>cross3 a b v \<le> 0\<close> by (rule left_after_pop_beyond)
      next
        case False
        then have "pointLeq p b" using pointLeq_total by blast
        with ap bv left p \<open>cross3 a b v \<le> 0\<close> show ?thesis
          by (intro left_after_pop_between [of a p b v]) auto
      qed
    qed
    moreover have "pointLeq a v" using ab bv by (rule pointLeq_trans)
    moreover have "sorted_wrt (\<lambda>x y. pointLeq y x) (a # rest)" "edgesLeft P (a # rest)"
      using "1.prems" by simp_all
    ultimately have "\<forall>p\<in>P. pointLeq (hd (popWhile (a # rest) v)) p
        \<longrightarrow> 0 \<le> cross3 (hd (popWhile (a # rest) v)) v p"
      using True by (intro "1.IH") simp_all
    with True show ?thesis by simp
  qed
qed simp_all

text \<open>A point that turns left at the top edge of a convex chain lies left of every
  edge of the chain.\<close>

lemma chain_left_of:
  "sorted_wrt (\<lambda>x y. pointLeq y x) (b # a # rest) \<Longrightarrow> turnsLeft (b # a # rest) \<Longrightarrow>
   0 < cross3 a b v \<Longrightarrow> pointLeq b v \<Longrightarrow> edgesLeft {v} (b # a # rest)"
proof (induction rest arbitrary: a b)
  case Nil
  then show ?case by simp
next
  case (Cons a' rest)
  from Cons.prems have order: "pointLeq a' a" "pointLeq a b" by simp_all
  from Cons.prems have "0 < cross3 a' a b" by simp
  with order Cons.prems have "0 < cross3 a' a v"
    by (intro left_of_earlier_edge [of a' a b v]) simp_all
  moreover have "pointLeq a v" using order(2) Cons.prems(4) by (rule pointLeq_trans)
  moreover have "sorted_wrt (\<lambda>x y. pointLeq y x) (a # a' # rest)" "turnsLeft (a # a' # rest)"
    using Cons.prems by (simp_all del: turnsLeft.simps add: turnsLeft_tl [of b])
  ultimately have "edgesLeft {v} (a # a' # rest)" by (intro Cons.IH)
  with Cons.prems(3) show ?case by simp
qed

subsection \<open>One round of the scan\<close>

lemma scanInv_empty: "scanInv {} []"
  by (simp add: scanInv_def)

lemma scan_step:
  assumes inv: "scanInv P st" and above: "\<forall>p\<in>P. pointLeq p v"
  shows "scanInv (insert v P) (v # popWhile st v)"
proof (cases "st = []")
  case True
  with inv have "P = {}" by (simp add: scanInv_def)
  with True show ?thesis by (simp add: scanInv_def pointLeq_refl)
next
  case False
  let ?s = "popWhile st v"
  from inv have sub: "set st \<subseteq> P" and top: "\<forall>p\<in>P. pointLeq p (hd st)"
    and bottom: "\<forall>p\<in>P. pointLeq (last st) p"
    and desc: "sorted_wrt (\<lambda>x y. pointLeq y x) st"
    and turns: "turnsLeft st" and edges: "edgesLeft P st"
    by (simp_all add: scanInv_def)
  obtain popped where split: "st = popped @ ?s" using popWhile_suffix by blast
  have nonempty: "?s \<noteq> []" using False by (rule popWhile_nonempty)
  have sub': "set ?s \<subseteq> P" using sub split by (metis le_sup_iff set_append)
  have desc': "sorted_wrt (\<lambda>x y. pointLeq y x) ?s"
    using desc split by (metis sorted_wrt_append)
  have turns': "turnsLeft ?s" using turns split by (metis turnsLeft_suffix)
  have edges': "edgesLeft P ?s" using edges split by (metis edgesLeft_suffix)
  have hdP: "hd st \<in> P" using False sub by auto
  have topv: "pointLeq (hd st) v" using above hdP by blast
  have start: "\<forall>p\<in>P. pointLeq (hd st) p \<longrightarrow> 0 \<le> cross3 (hd st) v p"
  proof (intro ballI impI)
    fix p assume "p \<in> P" "pointLeq (hd st) p"
    with top have "p = hd st" by (simp add: pointLeq_antisym)
    then show "0 \<le> cross3 (hd st) v p" by simp
  qed
  have beyond: "\<forall>p\<in>P. pointLeq (hd ?s) p \<longrightarrow> 0 \<le> cross3 (hd ?s) v p"
    using desc edges False topv start by (rule popWhile_beyond)
  obtain b rest where s: "?s = b # rest" using nonempty by (cases ?s) auto
  have bP: "b \<in> P" using sub' s by simp
  have bv: "pointLeq b v" using above bP by blast
  have newEdge: "\<forall>p\<in>insert v P. 0 \<le> cross3 b v p"
  proof
    fix p assume "p \<in> insert v P"
    then consider "p = v" | "p \<in> P" by blast
    then show "0 \<le> cross3 b v p"
    proof cases
      case 1
      then show ?thesis by simp
    next
      case 2
      show ?thesis
      proof (cases "pointLeq b p")
        case True
        with beyond 2 s show ?thesis by simp
      next
        case notBeyond: False
        then have pb: "pointLeq p b" using pointLeq_total by blast
        show ?thesis
        proof (cases rest)
          case Nil
          with s have "last ?s = b" by simp
          then have "last st = b" by (simp add: last_popWhile)
          with bottom 2 notBeyond show ?thesis by blast
        next
          case (Cons a rest')
          with s have full: "?s = b # a # rest'" by simp
          then have "0 < cross3 a b v" by (rule popWhile_top)
          moreover have "pointLeq a b" using desc' full by simp
          moreover have "0 \<le> cross3 a b p" using edges' full 2 by simp
          ultimately show ?thesis using pb bv by (intro left_of_new_edge [of p b a v])
        qed
      qed
    qed
  qed
  have oldEdges: "edgesLeft {v} ?s"
  proof (cases rest)
    case Nil
    with s show ?thesis by simp
  next
    case (Cons a rest')
    with s have full: "?s = b # a # rest'" by simp
    then have "0 < cross3 a b v" by (rule popWhile_top)
    with desc' turns' bv show ?thesis
      unfolding full by (intro chain_left_of)
  qed
  have turnsNew: "turnsLeft (v # ?s)"
  proof (cases rest)
    case Nil
    with s show ?thesis by simp
  next
    case (Cons a rest')
    with s have full: "?s = b # a # rest'" by simp
    then have "0 < cross3 a b v" by (rule popWhile_top)
    with turns' show ?thesis unfolding full by simp
  qed
  have descNew: "sorted_wrt (\<lambda>x y. pointLeq y x) (v # ?s)"
    using desc' sub' above by auto
  have bottomNew: "\<forall>p\<in>insert v P. pointLeq (last (v # ?s)) p"
  proof -
    have "last (v # ?s) = last st" using nonempty by (simp add: last_popWhile)
    moreover have "last st \<in> P" using False sub by auto
    ultimately show ?thesis using bottom above by auto
  qed
  have edgesNew: "edgesLeft (insert v P) (v # ?s)"
    using newEdge oldEdges edges' s by (simp add: edgesLeft_insert [of v P "b # rest"])
  show ?thesis
    unfolding scanInv_def
    using sub' above turnsNew descNew bottomNew edgesNew
    by (auto simp: pointLeq_refl)
qed

lemma scan_fold:
  "scanInv P st \<Longrightarrow> sorted_wrt pointLeq vs \<Longrightarrow> \<forall>p\<in>P. \<forall>v\<in>set vs. pointLeq p v \<Longrightarrow>
   scanInv (P \<union> set vs) (fold (\<lambda>v st. v # popWhile st v) vs st)"
proof (induction vs arbitrary: P st)
  case Nil
  then show ?case by simp
next
  case (Cons v vs)
  have "scanInv (insert v P) (v # popWhile st v)"
    using Cons.prems by (intro scan_step) auto
  moreover have "sorted_wrt pointLeq vs" using Cons.prems by simp
  moreover have "\<forall>p\<in>insert v P. \<forall>u\<in>set vs. pointLeq p u" using Cons.prems by auto
  ultimately have "scanInv (insert v P \<union> set vs)
      (fold (\<lambda>v st. v # popWhile st v) vs (v # popWhile st v))"
    by (rule Cons.IH)
  then show ?case by simp
qed

lemma scanInv_chainScan: "sorted_wrt pointLeq vs \<Longrightarrow> scanInv (set vs) (chainScan vs)"
  using scan_fold [OF scanInv_empty, of vs] by (simp add: chainScan_def)

lemma length_scan_fold:
  "st \<noteq> [] \<Longrightarrow> vs \<noteq> [] \<Longrightarrow> 2 \<le> length (fold (\<lambda>v st. v # popWhile st v) vs st)"
proof (induction vs arbitrary: st)
  case Nil
  then show ?case by simp
next
  case (Cons v vs)
  have kept: "popWhile st v \<noteq> []" using Cons.prems(1) by (rule popWhile_nonempty)
  show ?case
  proof (cases "vs = []")
    case True
    with kept show ?thesis by (cases "popWhile st v") simp_all
  next
    case False
    then show ?thesis using Cons.IH [of "v # popWhile st v"] by simp
  qed
qed

lemma length_chainScan: "2 \<le> length vs \<Longrightarrow> 2 \<le> length (chainScan vs)"
proof -
  assume "2 \<le> length vs"
  then obtain v u rest where "vs = v # u # rest"
    by (cases vs rule: turnsLeft.cases) auto
  then show ?thesis
    using length_scan_fold [of "[v]" "u # rest"] by (simp add: chainScan_def)
qed

subsection \<open>The upper chain, by reflection\<close>

lemma cross3_mirror [simp]: "cross3 (mirror a) (mirror b) (mirror c) = cross3 a b c"
  by (simp add: cross3_def mirror_def algebra_simps)

lemma pointLeq_mirror [simp]: "pointLeq (mirror a) (mirror b) = pointLeq b a"
  by (auto simp: pointLeq_def mirror_def)

lemma popWhile_mirror: "popWhile (map mirror st) (mirror v) = map mirror (popWhile st v)"
  by (induction st v rule: popWhile.induct) simp_all

lemma scan_fold_mirror:
  "fold (\<lambda>v st. v # popWhile st v) (map mirror vs) (map mirror st)
     = map mirror (fold (\<lambda>v st. v # popWhile st v) vs st)"
proof (induction vs arbitrary: st)
  case Nil
  then show ?case by simp
next
  case (Cons v vs)
  from Cons.IH [of "v # popWhile st v"] show ?case by (simp add: popWhile_mirror)
qed

lemma chainScan_mirror: "chainScan (map mirror vs) = map mirror (chainScan vs)"
  using scan_fold_mirror [of vs "[]"] by (simp add: chainScan_def)

lemma edgesLeft_mirror: "edgesLeft (mirror ` P) (map mirror st) = edgesLeft P st"
  by (induction P st rule: edgesLeft.induct) simp_all

text \<open>What the two scans of the hull routine give.\<close>

lemma lower_chain:
  assumes "sorted_wrt pointLeq vs"
  shows "edgesLeft (set vs) (chainScan vs)" "set (chainScan vs) \<subseteq> set vs"
    "\<forall>p\<in>set vs. pointLeq p (hd (chainScan vs))"
    "\<forall>p\<in>set vs. pointLeq (last (chainScan vs)) p"
  using scanInv_chainScan [OF assms] by (simp_all add: scanInv_def)

lemma upper_chain:
  assumes "sorted_wrt pointLeq vs"
  shows "edgesLeft (set vs) (chainScan (rev vs))" "set (chainScan (rev vs)) \<subseteq> set vs"
    "\<forall>p\<in>set vs. pointLeq (hd (chainScan (rev vs))) p"
    "\<forall>p\<in>set vs. pointLeq p (last (chainScan (rev vs)))"
proof -
  let ?u = "chainScan (rev vs)"
  have "sorted_wrt pointLeq (map mirror (rev vs))"
    using assms by (simp add: sorted_wrt_map sorted_wrt_rev)
  then have inv: "scanInv (mirror ` set vs) (map mirror ?u)"
    using scanInv_chainScan [of "map mirror (rev vs)"] by (simp add: chainScan_mirror)
  then show "edgesLeft (set vs) ?u"
    by (simp add: scanInv_def edgesLeft_mirror)
  have inj: "inj mirror"
    by (rule injI, rule point_eqI) (simp_all add: mirror_def)
  from inv have "mirror ` set ?u \<subseteq> mirror ` set vs" by (simp add: scanInv_def)
  then show sub: "set ?u \<subseteq> set vs" using inj by (simp add: inj_image_subset_iff)
  have nonempty: "?u \<noteq> []" if "vs \<noteq> []"
    using inv that by (auto simp: scanInv_def)
  show "\<forall>p\<in>set vs. pointLeq (hd ?u) p"
  proof
    fix p assume p: "p \<in> set vs"
    then have "vs \<noteq> []" by auto
    then have "hd (map mirror ?u) = mirror (hd ?u)" using nonempty by (simp add: hd_map)
    moreover from inv p have "pointLeq (mirror p) (hd (map mirror ?u))"
      by (simp add: scanInv_def)
    ultimately show "pointLeq (hd ?u) p" by simp
  qed
  show "\<forall>p\<in>set vs. pointLeq p (last ?u)"
  proof
    fix p assume p: "p \<in> set vs"
    then have "vs \<noteq> []" by auto
    then have "last (map mirror ?u) = mirror (last ?u)" using nonempty by (simp add: last_map)
    moreover from inv p have "pointLeq (last (map mirror ?u)) (mirror p)"
      by (simp add: scanInv_def)
    ultimately show "pointLeq p (last ?u)" by simp
  qed
qed

subsection \<open>The closed walk along the two chains\<close>

lemma stepsLeft_snoc:
  "stepsLeft P (xs @ [a, b]) \<longleftrightarrow> stepsLeft P (xs @ [a]) \<and> (\<forall>p\<in>P. 0 \<le> cross3 a b p)"
proof (induction xs)
  case Nil
  then show ?case by simp
next
  case (Cons x xs)
  then show ?case by (cases xs) auto
qed

lemma stepsLeft_rev: "edgesLeft P st \<Longrightarrow> stepsLeft P (rev st)"
proof (induction P st rule: edgesLeft.induct)
  case (1 P b a rest)
  then have "stepsLeft P (rev rest @ [a])" by simp
  with 1 show ?case by (simp add: stepsLeft_snoc)
qed simp_all

lemma stepsLeft_join:
  "stepsLeft P (xs @ [c]) \<Longrightarrow> stepsLeft P (c # ys) \<Longrightarrow> stepsLeft P (xs @ c # ys)"
proof (induction xs)
  case Nil
  then show ?case by simp
next
  case (Cons x xs)
  then show ?case by (cases xs) auto
qed

lemma stepsLeft_nth:
  "stepsLeft P walk \<Longrightarrow> Suc i < length walk \<Longrightarrow> p \<in> P \<Longrightarrow>
   0 \<le> cross3 (walk ! i) (walk ! Suc i) p"
proof (induction P walk arbitrary: i rule: stepsLeft.induct)
  case (1 P a b rest)
  then show ?case by (cases i) auto
qed simp_all

lemma closed_walk_sides:
  assumes "poly \<noteq> []" and "stepsLeft P (poly @ [hd poly])" and "p \<in> P"
  shows "list_all (\<lambda>c. 0 \<le> c) (edgeSides poly p)"
proof -
  let ?n = "length poly"
  have "0 \<le> cross3 (poly ! i) (poly ! ((i + 1) mod ?n)) p" if "i < ?n" for i
  proof -
    have step: "0 \<le> cross3 ((poly @ [hd poly]) ! i) ((poly @ [hd poly]) ! Suc i) p"
      using assms(2,3) that by (intro stepsLeft_nth) simp_all
    have first: "(poly @ [hd poly]) ! i = poly ! i"
      using that by (simp add: nth_append)
    have second: "(poly @ [hd poly]) ! Suc i = poly ! ((i + 1) mod ?n)"
    proof (cases "Suc i < ?n")
      case True
      then show ?thesis by (simp add: nth_append)
    next
      case False
      with that have "Suc i = ?n" by simp
      then show ?thesis using assms(1) by (simp add: nth_append hd_conv_nth)
    qed
    from step first second show ?thesis by simp
  qed
  then show ?thesis by (simp add: edgeSides_def list_all_iff)
qed

text \<open>A point on the line of two points and between them in the order of the scan
  lies within their bounding box.\<close>

lemma between_on_line:
  assumes line: "cross3 b a p = 0" and low: "pointLeq a p" and high: "pointLeq p b"
  shows "min (px b) (px a) \<le> px p \<and> px p \<le> max (px b) (px a)
         \<and> min (py b) (py a) \<le> py p \<and> py p \<le> max (py b) (py a)"
proof -
  have xs: "px a \<le> px p" "px p \<le> px b"
    using low high by (auto simp: pointLeq_def)
  show ?thesis
  proof (cases "px a < px b")
    case False
    with xs have "px a = px p" "px p = px b" by auto
    with low high have "py a \<le> py p" "py p \<le> py b" by (auto simp: pointLeq_def)
    with xs show ?thesis by auto
  next
    case True
    define D where "D = px b - px a"
    define d where "d = px p - px a"
    have D: "0 < D" and d: "0 \<le> d" "d \<le> D"
      using True xs by (simp_all add: D_def d_def)
    have eq: "D * (py p - py a) = (py b - py a) * d"
      using line by (simp add: cross3_def D_def d_def algebra_simps)
    have eq': "D * (py b - py p) = (py b - py a) * (D - d)"
      using eq by (simp add: algebra_simps)
    have ys: "min (py b) (py a) \<le> py p \<and> py p \<le> max (py b) (py a)"
    proof (cases "py a \<le> py b")
      case True
      then have "0 \<le> (py b - py a) * d" "0 \<le> (py b - py a) * (D - d)"
        using d by simp_all
      with eq eq' have "0 \<le> D * (py p - py a)" "0 \<le> D * (py b - py p)" by simp_all
      with D have "0 \<le> py p - py a" "0 \<le> py b - py p"
        by (simp_all add: zero_le_mult_iff)
      then show ?thesis by auto
    next
      case False
      then have "(py b - py a) * d \<le> 0" "(py b - py a) * (D - d) \<le> 0"
        using d by (simp_all add: mult_le_0_iff)
      with eq eq' have "D * (py p - py a) \<le> 0" "D * (py b - py p) \<le> 0" by simp_all
      with D have "py p - py a \<le> 0" "py b - py p \<le> 0"
        by (simp_all add: mult_le_0_iff)
      then show ?thesis by auto
    qed
    with xs show ?thesis by auto
  qed
qed

subsection \<open>The hull contains its points\<close>

lemma set_chainHull: "set (chainHull ps) \<subseteq> set ps"
proof -
  have sorted: "sorted_wrt pointLeq (sortPoints ps)" by (rule sorted_sortPoints)
  have "set (tl xs) \<subseteq> set xs" for xs :: "point list" by (cases xs) auto
  then have "set (chainHull ps)
      \<subseteq> set (chainScan (rev (sortPoints ps))) \<union> set (chainScan (sortPoints ps))"
    by (auto simp: chainHull_def Let_def)
  with lower_chain(2) [OF sorted] upper_chain(2) [OF sorted] show ?thesis
    by (auto simp: set_sortPoints)
qed

lemma chainHull_contains:
  assumes long: "2 \<le> length ps" and p: "p \<in> set ps"
  shows "onOrInside (chainHull ps) p"
proof -
  let ?sorted = "sortPoints ps"
  let ?L = "chainScan ?sorted"
  let ?U = "chainScan (rev ?sorted)"
  let ?H = "rev (tl ?U) @ rev (tl ?L)"
  have sorted: "sorted_wrt pointLeq ?sorted" by (rule sorted_sortPoints)
  have P: "set ?sorted = set ps" by (rule set_sortPoints)
  have hull: "chainHull ps = ?H" by (simp add: chainHull_def Let_def)
  have lenL: "2 \<le> length ?L" and lenU: "2 \<le> length ?U"
    using long by (simp_all add: length_chainScan length_sortPoints)
  then have neL: "?L \<noteq> []" and neU: "?U \<noteq> []" by auto
  note lower = lower_chain [OF sorted, unfolded P]
  note upper = upper_chain [OF sorted, unfolded P]
  have hdL: "hd ?L \<in> set ps" and lastL: "last ?L \<in> set ps"
    using lower(2) neL by auto
  have hdU: "hd ?U \<in> set ps" and lastU: "last ?U \<in> set ps"
    using upper(2) neU by auto
  have low: "hd ?U = last ?L"
    using lower(4) upper(3) hdU lastL by (intro pointLeq_antisym) auto
  have high: "last ?U = hd ?L"
    using lower(3) upper(4) hdL lastU by (intro pointLeq_antisym) auto
  have walkU: "stepsLeft (set ps) (rev (tl ?U) @ [last ?L])"
  proof -
    have "rev ?U = rev (tl ?U) @ [hd ?U]" using neU by (cases ?U) simp_all
    with stepsLeft_rev [OF upper(1)] low show ?thesis by simp
  qed
  have walkL: "stepsLeft (set ps) (last ?L # tl (rev ?L))"
  proof -
    have eq: "rev ?L = last ?L # tl (rev ?L)"
      using neL by (metis hd_rev list.collapse rev_is_Nil_conv)
    show ?thesis
      unfolding eq [symmetric] by (rule stepsLeft_rev [OF lower(1)])
  qed
  have revL: "last ?L # tl (rev ?L) = rev (tl ?L) @ [hd ?L]"
  proof -
    have "rev ?L = rev (tl ?L) @ [hd ?L]" using neL by (cases ?L) simp_all
    moreover have "rev ?L = last ?L # tl (rev ?L)"
      using neL by (metis hd_rev list.collapse rev_is_Nil_conv)
    ultimately show ?thesis by simp
  qed
  have tlU: "tl ?U \<noteq> []" using lenU by (cases ?U) auto
  have tlL: "tl ?L \<noteq> []" using lenL by (cases ?L) auto
  have hdH: "hd ?H = hd ?L"
  proof -
    have "hd ?H = hd (rev (tl ?U))" using tlU by simp
    also have "\<dots> = last (tl ?U)" using tlU by (simp add: hd_rev)
    also have "\<dots> = last ?U" using tlU by (simp add: last_tl)
    finally show ?thesis using high by simp
  qed
  have closed: "stepsLeft (set ps) (?H @ [hd ?H])"
    using stepsLeft_join [OF walkU walkL] by (simp add: revL hdH)
  have neH: "?H \<noteq> []" using tlU by simp
  have sides: "list_all (\<lambda>c. 0 \<le> c) (edgeSides ?H p)"
    using neH closed p by (rule closed_walk_sides)
  obtain u0 u1 ur where U: "?U = u0 # u1 # ur"
    using lenU by (cases ?U rule: turnsLeft.cases) auto
  obtain l0 l1 lr where L: "?L = l0 # l1 # lr"
    using lenL by (cases ?L rule: turnsLeft.cases) auto
  show ?thesis
  proof (cases "ur = [] \<and> lr = []")
    case True
    with U L have H2: "?H = [u1, l1]" and ends: "last ?U = u1" "last ?L = l1" by simp_all
    from closed H2 p have "0 \<le> cross3 u1 l1 p" "0 \<le> cross3 l1 u1 p" by simp_all
    then have line: "cross3 u1 l1 p = 0" using cross3_swap [of l1 u1 p] by simp
    have "pointLeq l1 p" "pointLeq p u1"
      using lower(4) upper(4) p ends by auto
    with between_on_line [OF line] line show ?thesis
      unfolding hull H2 by simp
  next
    case False
    have "3 \<le> length ?H" using U L False by (cases ur; cases lr) simp_all
    then obtain a b c rest where "?H = a # b # c # rest"
      by (cases ?H rule: turnsLeft.cases) auto
    with sides show ?thesis unfolding hull by simp
  qed
qed

lemma jsRound_of_int [simp]: "jsRound (of_int k) = of_int k"
proof -
  have "\<lfloor>(of_int k :: real) + 1 / 2\<rfloor> = k" by linarith
  then show ?thesis by (simp add: jsRound_def)
qed

lemma roundPoint_integral: "integral p \<Longrightarrow> roundPoint p = p"
proof -
  assume "integral p"
  then have "px p = of_int \<lfloor>px p\<rfloor>" "py p = of_int \<lfloor>py p\<rfloor>"
    by (simp_all add: integral_def)
  then have "jsRound (px p) = px p" "jsRound (py p) = py p"
    by (metis jsRound_of_int)+
  then show ?thesis by (simp add: roundPoint_def)
qed

lemma integral_scalePoint: "integral (scalePoint be sx sy p)"
  by (simp add: integral_def scalePoint_def jsRound_def)

lemma set_dedupFrom: "set (dedupFrom prev ps) \<subseteq> set ps"
  by (induction ps arbitrary: prev) auto

lemma set_preprocessContour: "set (preprocessContour ps) \<subseteq> set ps"
  using set_dedupFrom
  by (cases ps) (auto simp: preprocessContour_def uniquePoints_def Let_def)

lemma toConvexHull_integral:
  assumes "list_all integral ps"
  shows "toConvexHull chainHull ps = chainHull ps"
proof -
  have "map roundPoint (chainHull ps) = chainHull ps"
    using assms set_chainHull [of ps]
    by (auto simp: list_all_iff roundPoint_integral intro!: map_idI)
  then show ?thesis by (simp add: toConvexHull_def)
qed

text \<open>
  Claim C9. \<^verbatim>\<open>toConvexHull\<close> is private to the module, and its only caller,
  \<^verbatim>\<open>createConvexHullBody\<close>, passes the sanitized contour of an object that has passed
  the guards of the object loop: at least 3 points, whose coordinates are integers
  since the scaling rounds them. For every such input, and for every list of at least
  2 points with integer coordinates, each input point lies on or inside the hull that
  \<^verbatim>\<open>toConvexHull\<close> returns, the hull routine being the monotone chain scan: the
  vertices of the hull are input points, so rounding moves none of them, and the two
  chains of the scan have every input point on their left.
\<close>

theorem hull_contains_contour_points:
  "(2 \<le> length ps \<and> list_all integral ps \<longrightarrow>
      list_all (onOrInside (toConvexHull chainHull ps)) ps)
   \<and> (3 \<le> length raw \<longrightarrow>
      list_all integral (preprocessContour (map (scalePoint be sx sy) raw))
      \<and> list_all (onOrInside (toConvexHull chainHull
                     (preprocessContour (map (scalePoint be sx sy) raw))))
          (preprocessContour (map (scalePoint be sx sy) raw)))"
proof -
  have general: "list_all (onOrInside (toConvexHull chainHull qs)) qs"
    if "2 \<le> length qs" "list_all integral qs" for qs
    using that by (simp add: toConvexHull_integral list_all_iff chainHull_contains)
  let ?processed = "preprocessContour (map (scalePoint be sx sy) raw)"
  have ints: "list_all integral ?processed"
    using set_preprocessContour [of "map (scalePoint be sx sy) raw"]
    by (auto simp: list_all_iff integral_scalePoint)
  have "2 \<le> length ?processed" if "3 \<le> length raw"
  proof -
    have "\<not> length ?processed < 3"
      using that by (simp add: length_preprocessContour_lt3)
    then show ?thesis by simp
  qed
  with general [of ?processed] ints general [of ps] show ?thesis by blast
qed

theorem hull_contains_contour_points_witness:
  "3 \<le> length arrowContour
   \<and> preprocessContour (map (scalePoint standInBackend 1 1) arrowContour) = arrowContour
   \<and> toConvexHull chainHull arrowContour = [pt 10 10, pt 0 10, pt 0 0, pt 10 0]
   \<and> list_all (onOrInside [pt 10 10, pt 0 10, pt 0 0, pt 10 0]) arrowContour"
proof -
  have len: "3 \<le> length arrowContour" by (simp add: arrowContour_def)
  have processed:
    "preprocessContour (map (scalePoint standInBackend 1 1) arrowContour) = arrowContour"
    by (simp add: geometry_defs contour_defs standInBackend_def)
  have hull: "chainHull arrowContour = [pt 10 10, pt 0 10, pt 0 0, pt 10 0]"
    by (simp add: arrowContour_def hull_defs cross3_def pt_def Let_def)
  have rounded: "toConvexHull chainHull arrowContour = [pt 10 10, pt 0 10, pt 0 0, pt 10 0]"
    unfolding toConvexHull_def hull by (simp add: roundPoint_def jsRound_def pt_def)
  from hull_contains_contour_points [of arrowContour arrowContour standInBackend 1 1]
    len processed rounded
  show ?thesis by simp
qed

end
